theory Spec2Isabelle
  imports Complex_Main
begin

section \<open>Configuration (internal/config)\<close>

text \<open>
  The \<^verbatim>\<open>Config\<close> struct. A light entry carries two optional pointers, \<^verbatim>\<open>ID\<close> and
  \<^verbatim>\<open>Name\<close>; a nil pointer is \<open>None\<close>. The \<^verbatim>\<open>Meta\<close> block is read by no function
  modelled here and is left out. Coordinates are \<^verbatim>\<open>float64\<close> in the source and reals
  here; they are only compared with the bounds of \<^verbatim>\<open>validate\<close> and handed to the
  sunrise library.
\<close>

record light_cfg =
  ID :: "string option"
  Name :: "string option"

record location =
  Latitude :: real
  Longitude :: real

record config =
  Location :: location
  Lights :: "light_cfg list"

datatype error = Err string

definition validate :: "config option \<Rightarrow> error option" where
  "validate c =
     (case c of
        None \<Rightarrow> Some (Err ''config is nil'')
      | Some cfg \<Rightarrow>
          if Latitude (Location cfg) < -90 \<or> Latitude (Location cfg) > 90 \<or>
             Longitude (Location cfg) < -180 \<or> Longitude (Location cfg) > 180
          then Some (Err ''invalid location coordinates'')
          else if list_ex (\<lambda>light. ID light = None \<and> Name light = None) (Lights cfg)
          then Some (Err ''light must have either ID or Name'')
          else None)"

section \<open>The world outside the service\<close>

text \<open>
  Times are integers: nanoseconds since the zero value of \<^verbatim>\<open>time.Time\<close>. A duration is
  an \<^verbatim>\<open>int64\<close> count of nanoseconds; \<^verbatim>\<open>Time.Sub\<close> saturates at its bounds.
\<close>

type_synonym time = int
type_synonym duration = int

definition Second :: duration where
  "Second = 1000000000"

definition Minute :: duration where
  "Minute = 60 * Second"

definition maxDuration :: duration where
  "maxDuration = 2 ^ 63 - 1"

definition minDuration :: duration where
  "minDuration = - (2 ^ 63)"

definition time_Sub :: "time \<Rightarrow> time \<Rightarrow> duration" where
  "time_Sub t u =
     (if t - u > maxDuration then maxDuration
      else if t - u < minDuration then minDuration
      else t - u)"

definition Before :: "time \<Rightarrow> time \<Rightarrow> bool" where
  "Before t u = (t < u)"

definition After :: "time \<Rightarrow> time \<Rightarrow> bool" where
  "After t u = (t > u)"

text \<open>
  The world holds what the service reaches but does not own: the bridge with its lamps,
  the clock, the sunrise library, the number of tick-loop goroutines alive, and the trace
  of what the process did (requests, log lines, timer and channel operations). A panic
  ends the process and is the result of the function that raised it; a panic raised by
  a deferred call while another panic unwinds is recorded in the trace as \<open>Panicked\<close>.

  The bridge is reached through three client calls. Each call is one HTTP request; the
  answer to the n-th request of a run is \<open>link w n\<close>: the request fails (transport error
  or an error list in the body), it succeeds with an empty data list, or it is served.
  A served or empty update takes effect on the lamp; a served fetch reports the lamp.
\<close>

datatype call = TurnOn string | TurnOff string | GetOne string

datatype outcome = Failed | NoData | Served

datatype level = Info | Warn | Error

datatype panic = NilPointerDereference | CloseOfClosedChannel | SendOnClosedChannel

datatype event =
    Sent call
  | Log level string
  | TickerStopped
  | StopClosed
  | Panicked panic
  | Notified
  | ConnClosed
  | ListenerClosed
  | SocketRemoved

record world =
  lamps :: "string \<Rightarrow> bool"
  link :: "nat \<Rightarrow> outcome"
  nreq :: nat
  clock :: "nat \<Rightarrow> time"
  reads :: nat
  sun :: "real \<Rightarrow> real \<Rightarrow> time \<Rightarrow> time \<times> time"
  tasks :: nat
  trace :: "event list"

definition emit :: "event \<Rightarrow> world \<Rightarrow> world" where
  "emit e w = w\<lparr>trace := trace w @ [e]\<rparr>"

definition logf :: "level \<Rightarrow> string \<Rightarrow> world \<Rightarrow> world" where
  "logf l msg w = emit (Log l msg) w"

fun sent :: "event list \<Rightarrow> call list" where
  "sent [] = []"
| "sent (Sent c # es) = c # sent es"
| "sent (e # es) = sent es"

definition time_Now :: "world \<Rightarrow> time \<times> world" where
  "time_Now w = (clock w (reads w), w\<lparr>reads := Suc (reads w)\<rparr>)"

definition time_Since :: "time \<Rightarrow> world \<Rightarrow> duration \<times> world" where
  "time_Since t w = (case time_Now w of (now, w') \<Rightarrow> (time_Sub now t, w'))"

definition doRequest :: "call \<Rightarrow> world \<Rightarrow> outcome \<times> world" where
  "doRequest c w = (link w (nreq w), emit (Sent c) (w\<lparr>nreq := Suc (nreq w)\<rparr>))"

text \<open>
  \<^verbatim>\<open>GetOneLightById\<close> returns \<^verbatim>\<open>(nil, err)\<close>, \<^verbatim>\<open>(nil, nil)\<close> on an empty data list, or
  the first item; of the item only \<^verbatim>\<open>On.On\<close> is read, so the item is that boolean.
\<close>

definition GetOneLightById :: "string \<Rightarrow> world \<Rightarrow> (error + bool option) \<times> world" where
  "GetOneLightById lid w =
     (case doRequest (GetOne lid) w of
        (Failed, w') \<Rightarrow> (Inl (Err ''failed to fetch light by id''), w')
      | (NoData, w') \<Rightarrow> (Inr None, w')
      | (Served, w') \<Rightarrow> (Inr (Some (lamps w' lid)), w'))"

definition UpdateOneLightById :: "string \<Rightarrow> bool \<Rightarrow> world \<Rightarrow> error option \<times> world" where
  "UpdateOneLightById lid on w =
     (case doRequest (if on then TurnOn lid else TurnOff lid) w of
        (Failed, w') \<Rightarrow> (Some (Err ''failed to update light by id''), w')
      | (_, w') \<Rightarrow> (None, w'\<lparr>lamps := (lamps w')(lid := on)\<rparr>))"

definition TurnOnLightById :: "string \<Rightarrow> world \<Rightarrow> error option \<times> world" where
  "TurnOnLightById lid w = UpdateOneLightById lid True w"

definition TurnOffLightById :: "string \<Rightarrow> world \<Rightarrow> error option \<times> world" where
  "TurnOffLightById lid w = UpdateOneLightById lid False w"

text \<open>
  \<^verbatim>\<open>sunset.CalculateSunriseSunset\<close> reads the clock and passes the calendar date of the
  reading to the sunrise library, which is not part of the repository: \<open>sun w\<close> stands
  for it.
\<close>

definition CalculateSunriseSunset :: "real \<Rightarrow> real \<Rightarrow> world \<Rightarrow> (time \<times> time) \<times> world" where
  "CalculateSunriseSunset latitude longitude w =
     (case time_Now w of (now, w') \<Rightarrow> (sun w' latitude longitude now, w'))"

section \<open>The light automation service (internal/services/light_automation)\<close>

datatype chan = Open | Closed

datatype ticker = NewTicker duration

record service =
  config :: config
  ticker :: "ticker option"
  tickerStop :: chan
  lightStates :: "string \<rightharpoonup> bool"
  lastLightStateRefresh :: time

definition NewService :: "config \<Rightarrow> service" where
  "NewService cfg =
     \<lparr>config = cfg, ticker = None, tickerStop = Open, lightStates = Map.empty,
      lastLightStateRefresh = 0\<rparr>"

text \<open>Reading a Go \<^verbatim>\<open>map[string]bool\<close> at a missing key gives \<^verbatim>\<open>false\<close>.\<close>

definition lookup :: "(string \<rightharpoonup> bool) \<Rightarrow> string \<Rightarrow> bool" where
  "lookup m k = (case m k of None \<Rightarrow> False | Some b \<Rightarrow> b)"

text \<open>
  A \<^verbatim>\<open>for _, x := range xs\<close> loop whose body may panic: the body of one iteration is a
  function, \<^verbatim>\<open>continue\<close> is its early result, and a panic ends the loop.
\<close>

fun for_range ::
  "('a \<Rightarrow> service \<Rightarrow> world \<Rightarrow> (panic + service) \<times> world) \<Rightarrow> 'a list \<Rightarrow> service \<Rightarrow> world
    \<Rightarrow> (panic + service) \<times> world" where
  "for_range body [] s w = (Inr s, w)"
| "for_range body (x # xs) s w =
     (case body x s w of
        (Inl p, w') \<Rightarrow> (Inl p, w')
      | (Inr s', w') \<Rightarrow> for_range body xs s' w')"

definition setLightsState_body ::
  "bool \<Rightarrow> light_cfg \<Rightarrow> service \<Rightarrow> world \<Rightarrow> (panic + service) \<times> world" where
  "setLightsState_body turnOn lightCfg s w =
     (if turnOn then
        (let w0 = logf Info ''It's nighttime and we've reached lights on time, turning on lights'' w in
         case ID lightCfg of
           None \<Rightarrow> (Inl NilPointerDereference, w0)
         | Some lid \<Rightarrow>
             if lookup (lightStates s) lid
             then (Inr s, logf Info ''Light ID: %s is already on, skipping'' w0)
             else
               (case TurnOnLightById lid w0 of
                  (err, w1) \<Rightarrow>
                    (Inr (s\<lparr>lightStates := (lightStates s)(lid \<mapsto> True)\<rparr>),
                     (case err of
                        Some e \<Rightarrow> logf Error ''Failed to turn on light ID: %s, error: %v'' w1
                      | None \<Rightarrow> w1))))
      else
        (let w0 = logf Info ''It's daytime, lights should remain off'' w in
         case ID lightCfg of
           None \<Rightarrow> (Inl NilPointerDereference, w0)
         | Some lid \<Rightarrow>
             if \<not> lookup (lightStates s) lid
             then (Inr s, logf Info ''Light ID: %s is already off, skipping'' w0)
             else
               (case TurnOffLightById lid w0 of
                  (err, w1) \<Rightarrow>
                    (Inr (s\<lparr>lightStates := (lightStates s)(lid \<mapsto> False)\<rparr>),
                     (case err of
                        Some e \<Rightarrow> logf Error ''Failed to turn off light ID: %s, error: %v'' w1
                      | None \<Rightarrow> w1)))))"

definition setLightsState :: "bool \<Rightarrow> service \<Rightarrow> world \<Rightarrow> (panic + service) \<times> world" where
  "setLightsState turnOn s w = for_range (setLightsState_body turnOn) (Lights (config s)) s w"

definition refreshLightStates_body ::
  "light_cfg \<Rightarrow> service \<Rightarrow> world \<Rightarrow> (panic + service) \<times> world" where
  "refreshLightStates_body lightCfg s w =
     (case ID lightCfg of
        None \<Rightarrow> (Inl NilPointerDereference, w)
      | Some lid \<Rightarrow>
          (case GetOneLightById lid w of
             (Inr None, w1) \<Rightarrow> (Inl NilPointerDereference, w1)
           | (Inr (Some on), w1) \<Rightarrow> (Inr (s\<lparr>lightStates := (lightStates s)(lid \<mapsto> on)\<rparr>), w1)
           | (Inl e, w1) \<Rightarrow> (Inr s, logf Warn ''Could not refresh state for light %s: %v'' w1)))"

definition refreshLightStates :: "service \<Rightarrow> world \<Rightarrow> (panic + service) \<times> world" where
  "refreshLightStates s w =
     (case for_range refreshLightStates_body (Lights (config s)) s w of
        (Inl p, w1) \<Rightarrow> (Inl p, w1)
      | (Inr s1, w1) \<Rightarrow>
          (case time_Now w1 of
             (now, w2) \<Rightarrow> (Inr (s1\<lparr>lastLightStateRefresh := now\<rparr>), w2)))"

definition isNight :: "time \<Rightarrow> time \<Rightarrow> time \<Rightarrow> bool" where
  "isNight tickTime sunriseTime sunsetTime =
     (Before tickTime sunriseTime \<or> After tickTime sunsetTime)"

definition runAutomation :: "service \<Rightarrow> world \<Rightarrow> (panic + service) \<times> world" where
  "runAutomation s w =
     (case time_Now w of
        (tickTime, w0) \<Rightarrow>
          (case time_Since (lastLightStateRefresh s) (logf Info ''Tick at %v'' w0) of
             (elapsed, w1) \<Rightarrow>
               (case (if elapsed > 5 * Minute then refreshLightStates s w1 else (Inr s, w1)) of
                  (Inl p, w2) \<Rightarrow> (Inl p, w2)
                | (Inr s1, w2) \<Rightarrow>
                    (case CalculateSunriseSunset (Latitude (Location (config s1)))
                            (Longitude (Location (config s1))) w2 of
                       ((sunriseTime, sunsetTime), w3) \<Rightarrow>
                         if isNight tickTime sunriseTime sunsetTime
                         then setLightsState True s1 (logf Info ''Sunrise at %v, Sunset at %v'' w3)
                         else setLightsState False s1 (logf Info ''Sunrise at %v, Sunset at %v'' w3)))))"

text \<open>
  \<^verbatim>\<open>Start\<close> creates the ticker and spawns the tick loop as a goroutine; the loop itself
  is \<open>runAutomationTickerLoop\<close> below. \<^verbatim>\<open>Stop\<close> closes \<^verbatim>\<open>tickerStop\<close>; closing a closed
  channel panics.
\<close>

definition Start :: "service \<Rightarrow> world \<Rightarrow> (error option \<times> service) \<times> world" where
  "Start s w =
     (case ticker s of
        Some t \<Rightarrow> ((None, s), logf Warn ''Light Automation Service is already running'' w)
      | None \<Rightarrow>
          (case logf Info ''Starting Light Automation Service'' w of
             w0 \<Rightarrow> ((None, s\<lparr>ticker := Some (NewTicker (1 * Second))\<rparr>),
                    w0\<lparr>tasks := Suc (tasks w0)\<rparr>)))"

definition Stop :: "service \<Rightarrow> world \<Rightarrow> (panic + service) \<times> world" where
  "Stop s w =
     (case ticker s of
        None \<Rightarrow> (Inr s, logf Warn ''Light Automation Service is not running'' w)
      | Some t \<Rightarrow>
          (case emit TickerStopped (logf Info ''Stopping Light Automation Service'' w) of
             w0 \<Rightarrow>
               if tickerStop s = Closed then (Inl CloseOfClosedChannel, w0)
               else (Inr (s\<lparr>ticker := None, tickerStop := Closed\<rparr>), emit StopClosed w0)))"

definition StopAndTurnOffLights ::
  "service \<Rightarrow> world \<Rightarrow> (panic + error option \<times> service) \<times> world" where
  "StopAndTurnOffLights s w =
     (case Stop s w of
        (Inl p, w1) \<Rightarrow> (Inl p, w1)
      | (Inr s1, w1) \<Rightarrow>
          (case setLightsState False s1 w1 of
             (Inl p, w2) \<Rightarrow> (Inl p, w2)
           | (Inr s2, w2) \<Rightarrow> (Inr (None, s2), w2)))"

text \<open>
  The tick loop, run without interference from other goroutines. Each \<^verbatim>\<open>select\<close> first
  evaluates \<^verbatim>\<open>s.ticker.C\<close>, which panics on a nil ticker. The schedule says, per
  \<^verbatim>\<open>select\<close>, whether a tick is pending and the runtime picks it. With \<^verbatim>\<open>tickerStop\<close>
  open the select waits for the running ticker, so the tick case is taken either way;
  with \<^verbatim>\<open>tickerStop\<close> closed the stop case is always ready and is taken unless the
  runtime picks a pending tick. When the schedule is used up the observation ends with
  the goroutine still in the loop (\<open>Parked\<close>).
\<close>

datatype exit = Returned | Parked

fun tick_loop :: "bool list \<Rightarrow> service \<Rightarrow> world \<Rightarrow> (panic + exit \<times> service) \<times> world" where
  "tick_loop [] s w =
     (case ticker s of
        None \<Rightarrow> (Inl NilPointerDereference, w)
      | Some t \<Rightarrow> (Inr (Parked, s), w))"
| "tick_loop (tick # sched) s w =
     (case ticker s of
        None \<Rightarrow> (Inl NilPointerDereference, w)
      | Some t \<Rightarrow>
          if tick \<or> tickerStop s = Open then
            (case runAutomation s w of
               (Inl p, w') \<Rightarrow> (Inl p, w')
             | (Inr s', w') \<Rightarrow> tick_loop sched s' w')
          else (Inr (Returned, s), logf Info ''Stopping periodic tasks.'' w))"

text \<open>
  \<^verbatim>\<open>defer s.Stop()\<close> runs when the loop returns and also when a panic of the first
  refresh or of a tick unwinds the goroutine. On the panic path the service at the
  moment of the panic is gone, but \<^verbatim>\<open>Stop\<close> reads only \<^verbatim>\<open>ticker\<close> and \<^verbatim>\<open>tickerStop\<close>, which
  neither the refresh nor a tick writes, so the service the loop last held stands for
  it. The result keeps the panic that began the unwinding.
\<close>

definition deferred_Stop ::
  "panic \<Rightarrow> service \<Rightarrow> world \<Rightarrow> (panic + exit \<times> service) \<times> world" where
  "deferred_Stop p s w =
     (case Stop s w of
        (Inl q, w1) \<Rightarrow> (Inl p, emit (Panicked q) w1)
      | (Inr s1, w1) \<Rightarrow> (Inl p, w1))"

definition runAutomationTickerLoop ::
  "bool list \<Rightarrow> service \<Rightarrow> world \<Rightarrow> (panic + exit \<times> service) \<times> world" where
  "runAutomationTickerLoop sched s w =
     (case refreshLightStates s (logf Info ''Running automation ticker loop'' w) of
        (Inl p, w1) \<Rightarrow> deferred_Stop p s w1
      | (Inr s1, w1) \<Rightarrow>
          (case tick_loop sched s1 w1 of
             (Inl p, w2) \<Rightarrow> deferred_Stop p s1 w2
           | (Inr (Parked, s2), w2) \<Rightarrow> (Inr (Parked, s2), w2)
           | (Inr (Returned, s2), w2) \<Rightarrow>
               (case Stop s2 w2 of
                  (Inl p, w3) \<Rightarrow> (Inl p, w3)
                | (Inr s3, w3) \<Rightarrow> (Inr (Returned, s3), w3\<lparr>tasks := tasks w3 - 1\<rparr>))))"

section \<open>The shutdown event service (internal/services/events)\<close>

text \<open>
  Modelled from the spec: the constant \<^verbatim>\<open>EVENT_TYPE_SHUTDOWN\<close> is declared in a file that
  is not among the sources; the spec gives the fixed payload as \<^verbatim>\<open>"shutdown"\<close>.
\<close>

definition EVENT_TYPE_SHUTDOWN :: string where
  "EVENT_TYPE_SHUTDOWN = ''shutdown''"

record external_event_service =
  listener :: "chan option"
  stopChan :: "chan option"

definition NewExternalEventService :: "chan option \<Rightarrow> external_event_service" where
  "NewExternalEventService stopChan' = \<lparr>listener = None, stopChan = stopChan'\<rparr>"

text \<open>
  What \<^verbatim>\<open>listener.Accept()\<close> hands to the loop: an error (with whether it is
  \<^verbatim>\<open>net.ErrClosed\<close>) or a connection. The loop reads a connection once, into a
  128-byte buffer: \<open>Connection bytes\<close> gives the bytes that are there for that one
  \<^verbatim>\<open>Read\<close>, of which it returns at most 128 (none when it fails). What the peer
  writes later is never read.
\<close>

datatype accepted = AcceptError bool | Connection string

fun close_conns :: "nat \<Rightarrow> world \<Rightarrow> world" where
  "close_conns 0 w = w"
| "close_conns (Suc n) w = close_conns n (emit ConnClosed w)"

text \<open>
  The deferred calls of the goroutine, last deferred first: every accepted connection
  is closed, then the listener is closed and the socket file removed. They run when
  the loop returns and when a panic unwinds it.
\<close>

definition accept_deferred ::
  "nat \<Rightarrow> external_event_service \<Rightarrow> world \<Rightarrow> external_event_service \<times> world" where
  "accept_deferred conns e w =
     (e\<lparr>listener := Some Closed\<rparr>,
      emit SocketRemoved (emit ListenerClosed
        (logf Info ''Closing Unix socket listener'' (close_conns conns w))))"

text \<open>
  The send on \<^verbatim>\<open>stopChan\<close> is skipped for a nil channel and panics on a closed one; on
  an open channel the main loop is the receiver.
\<close>

definition send_stop :: "external_event_service \<Rightarrow> world \<Rightarrow> (panic + unit) \<times> world" where
  "send_stop e w =
     (case stopChan e of
        None \<Rightarrow> (Inr (), w)
      | Some Open \<Rightarrow> (Inr (), emit Notified w)
      | Some Closed \<Rightarrow> (Inl SendOnClosedChannel, w))"

definition log_if_err :: "error option \<Rightarrow> string \<Rightarrow> world \<Rightarrow> world" where
  "log_if_err err msg w = (case err of Some x \<Rightarrow> logf Error msg w | None \<Rightarrow> w)"

fun accept_loop ::
  "accepted list \<Rightarrow> nat \<Rightarrow> external_event_service \<Rightarrow> service \<Rightarrow> world
    \<Rightarrow> (panic + exit \<times> external_event_service \<times> service) \<times> world" where
  "accept_loop [] conns e s w = (Inr (Parked, e, s), w)"
| "accept_loop (AcceptError errClosed # rest) conns e s w =
     (if errClosed then
        (case accept_deferred conns e
                (logf Info ''Unix socket listener closed, stopping event loop'' w) of
           (e', w') \<Rightarrow> (Inr (Returned, e', s), w'))
      else accept_loop rest conns e s
             (logf Error ''Failed to accept connection on Unix socket'' w))"
| "accept_loop (Connection bytes # rest) conns e s w =
     (case logf Info ''Listening for events on Unix socket: %q'' w of
        w0 \<Rightarrow>
          if take 128 bytes = EVENT_TYPE_SHUTDOWN then
            (case StopAndTurnOffLights s
                    (logf Info ''Received shutdown event, stopping light automation service'' w0) of
               (Inl p, w1) \<Rightarrow> (Inl p, snd (accept_deferred (Suc conns) e w1))
             | (Inr (err, s1), w1) \<Rightarrow>
                 (case send_stop e (log_if_err err ''Failed to stop and turn off lights'' w1) of
                    (Inl p, w2) \<Rightarrow> (Inl p, snd (accept_deferred (Suc conns) e w2))
                  | (Inr u, w2) \<Rightarrow>
                      (case accept_deferred (Suc conns) e
                              (log_if_err err ''Failed to stop light automation service'' w2) of
                         (e', w3) \<Rightarrow> (Inr (Returned, e', s1), w3))))
          else accept_loop rest (Suc conns) e s w0)"

section \<open>Observations and scenarios\<close>

text \<open>
  The requests a run issued are the \<open>Sent\<close> events it appended to the trace. In a
  command pass towards \<open>turnOn\<close>, the pending lights are the configured ones whose
  cached state differs from \<open>turnOn\<close>; \<open>settled\<close> is the cache with those set.
\<close>

definition issued :: "world \<Rightarrow> world \<Rightarrow> call list" where
  "issued w w' = sent (drop (length (trace w)) (trace w'))"

definition command :: "bool \<Rightarrow> string \<Rightarrow> call" where
  "command turnOn lid = (if turnOn then TurnOn lid else TurnOff lid)"

definition pending :: "bool \<Rightarrow> light_cfg list \<Rightarrow> (string \<rightharpoonup> bool) \<Rightarrow> string set" where
  "pending b ls m = {lid. Some lid \<in> ID ` set ls \<and> lookup m lid \<noteq> b}"

definition settled ::
  "bool \<Rightarrow> light_cfg list \<Rightarrow> (string \<rightharpoonup> bool) \<Rightarrow> (string \<rightharpoonup> bool)" where
  "settled b ls m = (\<lambda>k. if k \<in> pending b ls m then Some b else m k)"

text \<open>
  The classification computed by the tick that starts in world \<open>w\<close>: its first clock
  reading is the tick time, and \<^verbatim>\<open>CalculateSunriseSunset\<close> takes the \<open>k\<close>-th reading after
  it (the second when no refresh is due, the third after a refresh).
\<close>

definition night_at :: "service \<Rightarrow> world \<Rightarrow> nat \<Rightarrow> bool" where
  "night_at s w k =
     (case sun w (Latitude (Location (config s))) (Longitude (Location (config s)))
             (clock w (reads w + k)) of
        (sunriseTime, sunsetTime) \<Rightarrow> isNight (clock w (reads w)) sunriseTime sunsetTime)"

text \<open>
  The scenario of the specification: two lights \<^verbatim>\<open>L1\<close> and \<^verbatim>\<open>L2\<close>, sunrise at 06:00
  and sunset at 20:00. The clock starts at \<open>now\<close> and advances by a nanosecond per
  reading; \<open>net\<close> gives the outcome of each request and \<open>on\<close> the lamps.
\<close>

definition Hour :: duration where
  "Hour = 60 * Minute"

definition scenario_config :: config where
  "scenario_config =
     \<lparr>Location = \<lparr>Latitude = 52.5, Longitude = 13.4\<rparr>,
      Lights = [\<lparr>ID = Some ''L1'', Name = None\<rparr>, \<lparr>ID = Some ''L2'', Name = None\<rparr>]\<rparr>"

definition scenario_world :: "time \<Rightarrow> (nat \<Rightarrow> outcome) \<Rightarrow> (string \<Rightarrow> bool) \<Rightarrow> world" where
  "scenario_world now net on =
     \<lparr>lamps = on, link = net, nreq = 0, clock = (\<lambda>n. now + int n), reads = 0,
      sun = (\<lambda>latitude longitude t. (6 * Hour, 20 * Hour)), tasks = 0, trace = []\<rparr>"

text \<open>
  A configuration whose only light has a name and no id, with the coordinates of the
  test case \<^verbatim>\<open>valid config with edge case coordinates\<close>.
\<close>

definition name_only_config :: config where
  "name_only_config =
     \<lparr>Location = \<lparr>Latitude = 90, Longitude = 180\<rparr>,
      Lights = [\<lparr>ID = None, Name = Some ''test-light''\<rparr>]\<rparr>"

text \<open>
  Scenarios for the command pass. At 21:00 the bridge is unreachable and both lamps are
  off (\<open>unreachable_world\<close>); or it is reachable, \<^verbatim>\<open>L1\<close> is cached on and the last
  refresh is a minute old (\<open>one_on\<close> in \<open>night_world\<close>).
\<close>

definition unreachable_world :: world where
  "unreachable_world = scenario_world (21 * Hour) (\<lambda>n. Failed) (\<lambda>lid. False)"

definition believed_on :: service where
  "believed_on =
     (NewService scenario_config)
       \<lparr>lightStates := [''L1'' \<mapsto> True, ''L2'' \<mapsto> True],
        lastLightStateRefresh := 21 * Hour + 2\<rparr>"

definition night_world :: world where
  "night_world = scenario_world (21 * Hour) (\<lambda>n. Served) (\<lambda>lid. False)"


definition both_on :: service where
  "both_on =
     (NewService scenario_config)
       \<lparr>lightStates := [''L1'' \<mapsto> True, ''L2'' \<mapsto> True],
        lastLightStateRefresh := 21 * Hour - Minute\<rparr>"

text \<open>
  A start at noon with both lamps on while the bridge fails the first two requests: the
  service is started, the tick loop does its first refresh and two ticks, and is then
  blocked in its \<^verbatim>\<open>select\<close>.
\<close>

definition boot_world :: world where
  "boot_world =
     scenario_world (12 * Hour) (\<lambda>n. if n < 2 then Failed else Served) (\<lambda>lid. True)"

definition booted :: "(panic + exit \<times> service) \<times> world" where
  "booted =
     (case Start (NewService scenario_config) boot_world of
        ((err, s), w) \<Rightarrow> runAutomationTickerLoop [True, True] s w)"

definition parked_service :: service where
  "parked_service =
     (NewService scenario_config)
       \<lparr>ticker := Some (NewTicker (1 * Second)), lastLightStateRefresh := 12 * Hour\<rparr>"

text \<open>
  The ids of the configured lights in order, and the ids fetched by a list of requests.
\<close>

fun ids :: "light_cfg list \<Rightarrow> string list" where
  "ids [] = []"
| "ids (l # ls) = (case ID l of None \<Rightarrow> ids ls | Some lid \<Rightarrow> lid # ids ls)"

fun fetched :: "call list \<Rightarrow> string list" where
  "fetched [] = []"
| "fetched (GetOne lid # cs) = lid # fetched cs"
| "fetched (c # cs) = fetched cs"

text \<open>
  A refresh at 21:00 with both lamps on whose first request fails, starting from a cache
  that holds \<^verbatim>\<open>L1\<close> as off.
\<close>

definition flaky_world :: world where
  "flaky_world =
     scenario_world (21 * Hour) (\<lambda>n. if n = 0 then Failed else Served) (\<lambda>lid. True)"

definition one_off :: service where
  "one_off = (NewService scenario_config)\<lparr>lightStates := [''L1'' \<mapsto> False]\<rparr>"

text \<open>
  The service of \<open>parked_service\<close> after \<^verbatim>\<open>Stop\<close>, and after \<^verbatim>\<open>Stop\<close> and a second
  \<^verbatim>\<open>Start\<close>.
\<close>

definition stopped_service :: service where
  "stopped_service = parked_service\<lparr>ticker := None, tickerStop := Closed\<rparr>"

definition restarted_service :: service where
  "restarted_service = parked_service\<lparr>tickerStop := Closed\<rparr>"

text \<open>
  A running service that holds both lights as on, with both lamps on, and the service
  after the shutdown pass has switched them off.
\<close>

definition lit_world :: world where
  "lit_world = scenario_world (21 * Hour) (\<lambda>n. Served) (\<lambda>lid. True)"

definition running_on :: service where
  "running_on = both_on\<lparr>ticker := Some (NewTicker (1 * Second))\<rparr>"

definition switched_off :: service where
  "switched_off =
     running_on\<lparr>ticker := None, tickerStop := Closed,
                 lightStates := [''L1'' \<mapsto> False, ''L2'' \<mapsto> False]\<rparr>"




section \<open>The command pass\<close>

lemma sent_append [simp]: "sent (xs @ ys) = sent xs @ sent ys"
  by (induction xs rule: sent.induct) simp_all


lemma UpdateOneLightById_trace:
  "UpdateOneLightById lid on w = (err, w') \<Longrightarrow> trace w' = trace w @ [Sent (command on lid)]"
  by (auto simp: UpdateOneLightById_def doRequest_def emit_def command_def split: outcome.splits)

lemma setLightsState_body_nil:
  "ID l = None \<Longrightarrow> \<exists>w'. setLightsState_body b l s w = (Inl NilPointerDereference, w') \<and> (\<exists>es. trace w' = trace w @ es \<and> sent es = [])"
  by (simp add: setLightsState_body_def logf_def emit_def)

lemma setLightsState_body_skip:
  "ID l = Some lid \<Longrightarrow> lookup (lightStates s) lid = b \<Longrightarrow>
   \<exists>w'. setLightsState_body b l s w = (Inr s, w') \<and> (\<exists>es. trace w' = trace w @ es \<and> sent es = [])
     \<and> lamps w' = lamps w \<and> nreq w' = nreq w \<and> link w' = link w"
  by (auto simp add: setLightsState_body_def logf_def emit_def)

lemma setLightsState_body_send:
  "ID l = Some lid \<Longrightarrow> lookup (lightStates s) lid \<noteq> b \<Longrightarrow>
   \<exists>w'. setLightsState_body b l s w = (Inr (s\<lparr>lightStates := (lightStates s)(lid \<mapsto> b)\<rparr>), w')
      \<and> (\<exists>es. trace w' = trace w @ es \<and> sent es = [command b lid])"
  by (cases b; cases "link w (nreq w)")
     (simp_all add: setLightsState_body_def logf_def emit_def TurnOnLightById_def TurnOffLightById_def
       UpdateOneLightById_def doRequest_def command_def Let_def)

lemma lookup_upd [simp]: "lookup (m(k \<mapsto> v)) k' = (if k' = k then v else lookup m k')"
  by (simp add: lookup_def)

lemma pending_Nil [simp]: "pending b [] m = {}"
  by (simp add: pending_def)

lemma pending_Cons_nil: "ID l = None \<Longrightarrow> pending b (l # ls) m = pending b ls m"
  by (auto simp: pending_def)

lemma pending_Cons_skip:
  "ID l = Some lid \<Longrightarrow> lookup m lid = b \<Longrightarrow> pending b (l # ls) m = pending b ls m"
  by (auto simp: pending_def)

lemma pending_Cons_send:
  "ID l = Some lid \<Longrightarrow> lookup m lid \<noteq> b \<Longrightarrow>
     pending b (l # ls) m = insert lid (pending b ls (m(lid \<mapsto> b))) \<and> lid \<notin> pending b ls (m(lid \<mapsto> b))"
  by (auto simp: pending_def)

lemma settled_Nil [simp]: "settled b [] m = m"
  by (simp add: settled_def)

lemma settled_Cons_skip:
  "ID l = Some lid \<Longrightarrow> lookup m lid = b \<Longrightarrow> settled b (l # ls) m = settled b ls m"
  by (simp add: settled_def pending_Cons_skip)

lemma settled_Cons_send:
  "ID l = Some lid \<Longrightarrow> lookup m lid \<noteq> b \<Longrightarrow> settled b (l # ls) m = settled b ls (m(lid \<mapsto> b))"
  by (rule ext) (auto simp: settled_def pending_Cons_send)

lemma command_inj [simp]: "command b k = command b k' \<longleftrightarrow> k = k'"
  by (simp add: command_def)

lemma setLights_range_state:
  "for_range (setLightsState_body b) ls s w = (Inr s', w') \<Longrightarrow>
     s' = s\<lparr>lightStates := settled b ls (lightStates s)\<rparr> \<and> None \<notin> ID ` set ls"
proof (induction ls arbitrary: s w)
  case Nil
  then show ?case by simp
next
  case (Cons l ls)
  show ?case
  proof (cases "ID l")
    case None
    with Cons.prems setLightsState_body_nil[OF None, of b s w] show ?thesis by auto
  next
    case (Some lid)
    show ?thesis
    proof (cases "lookup (lightStates s) lid = b")
      case True
      from setLightsState_body_skip[OF Some True, of w] obtain w1 where
        b: "setLightsState_body b l s w = (Inr s, w1)" by blast
      with Cons.prems have "for_range (setLightsState_body b) ls s w1 = (Inr s', w')" by simp
      from Cons.IH[OF this] Some show ?thesis
        by (simp add: settled_Cons_skip[OF Some True])
    next
      case False
      from setLightsState_body_send[OF Some False, of w] obtain w1 where
        b: "setLightsState_body b l s w = (Inr (s\<lparr>lightStates := (lightStates s)(lid \<mapsto> b)\<rparr>), w1)" by blast
      with Cons.prems have "for_range (setLightsState_body b) ls (s\<lparr>lightStates := (lightStates s)(lid \<mapsto> b)\<rparr>) w1 = (Inr s', w')" by simp
      from Cons.IH[OF this] Some show ?thesis
        by (simp del: fun_upd_apply add: settled_Cons_send[OF Some False])
    qed
  qed
qed

lemma setLights_range_panic:
  "for_range (setLightsState_body b) ls s w = (Inl p, w') \<Longrightarrow>
     p = NilPointerDereference \<and> None \<in> ID ` set ls"
proof (induction ls arbitrary: s w)
  case Nil
  then show ?case by simp
next
  case (Cons l ls)
  show ?case
  proof (cases "ID l")
    case None
    with Cons.prems setLightsState_body_nil[OF None, of b s w] show ?thesis by auto
  next
    case (Some lid)
    show ?thesis
    proof (cases "lookup (lightStates s) lid = b")
      case True
      from setLightsState_body_skip[OF Some True, of w] obtain w1 where
        b: "setLightsState_body b l s w = (Inr s, w1)" by blast
      with Cons.prems have "for_range (setLightsState_body b) ls s w1 = (Inl p, w')" by simp
      from Cons.IH[OF this] show ?thesis by simp
    next
      case False
      from setLightsState_body_send[OF Some False, of w] obtain w1 where
        b: "setLightsState_body b l s w = (Inr (s\<lparr>lightStates := (lightStates s)(lid \<mapsto> b)\<rparr>), w1)" by blast
      with Cons.prems have "for_range (setLightsState_body b) ls (s\<lparr>lightStates := (lightStates s)(lid \<mapsto> b)\<rparr>) w1 = (Inl p, w')" by simp
      from Cons.IH[OF this] show ?thesis by simp
    qed
  qed
qed

lemma setLights_range_trace:
  "for_range (setLightsState_body b) ls s w = (r, w') \<Longrightarrow>
     \<exists>es. trace w' = trace w @ es \<and> distinct (sent es) \<and>
       set (sent es) \<subseteq> command b ` pending b ls (lightStates s) \<and>
       ((\<exists>s'. r = Inr s') \<longrightarrow> set (sent es) = command b ` pending b ls (lightStates s))"
proof (induction ls arbitrary: s w)
  case Nil
  then show ?case by simp
next
  case (Cons l ls)
  show ?case
  proof (cases "ID l")
    case None
    with Cons.prems setLightsState_body_nil[OF None, of b s w] show ?thesis by auto
  next
    case (Some lid)
    show ?thesis
    proof (cases "lookup (lightStates s) lid = b")
      case True
      from setLightsState_body_skip[OF Some True, of w] obtain w1 es1 where
        b: "setLightsState_body b l s w = (Inr s, w1)" and t: "trace w1 = trace w @ es1" "sent es1 = []" by blast
      with Cons.prems have "for_range (setLightsState_body b) ls s w1 = (r, w')" by simp
      from Cons.IH[OF this] obtain es where
        "trace w' = trace w1 @ es" "distinct (sent es)"
        "set (sent es) \<subseteq> command b ` pending b ls (lightStates s)"
        "(\<exists>s'. r = Inr s') \<longrightarrow> set (sent es) = command b ` pending b ls (lightStates s)" by blast
      with t have "trace w' = trace w @ (es1 @ es) \<and> distinct (sent (es1 @ es)) \<and>
         set (sent (es1 @ es)) \<subseteq> command b ` pending b (l # ls) (lightStates s) \<and>
         ((\<exists>s'. r = Inr s') \<longrightarrow> set (sent (es1 @ es)) = command b ` pending b (l # ls) (lightStates s))"
        by (simp add: pending_Cons_skip[OF Some True])
      then show ?thesis by blast
    next
      case False
      let ?s1 = "s\<lparr>lightStates := (lightStates s)(lid \<mapsto> b)\<rparr>"
      note pc = pending_Cons_send[OF Some False, of ls]
      from setLightsState_body_send[OF Some False, of w] obtain w1 es1 where
        b: "setLightsState_body b l s w = (Inr ?s1, w1)" and t: "trace w1 = trace w @ es1" "sent es1 = [command b lid]" by blast
      with Cons.prems have "for_range (setLightsState_body b) ls ?s1 w1 = (r, w')" by simp
      from Cons.IH[OF this] obtain es where e:
        "trace w' = trace w1 @ es" "distinct (sent es)"
        "set (sent es) \<subseteq> command b ` pending b ls ((lightStates s)(lid \<mapsto> b))"
        "(\<exists>s'. r = Inr s') \<longrightarrow> set (sent es) = command b ` pending b ls ((lightStates s)(lid \<mapsto> b))"
        by (auto simp del: fun_upd_apply)
      from e(3) pc have notin: "command b lid \<notin> set (sent es)" by auto
      from t e notin pc have "trace w' = trace w @ (es1 @ es) \<and> distinct (sent (es1 @ es)) \<and>
         set (sent (es1 @ es)) \<subseteq> command b ` pending b (l # ls) (lightStates s) \<and>
         ((\<exists>s'. r = Inr s') \<longrightarrow> set (sent (es1 @ es)) = command b ` pending b (l # ls) (lightStates s))"
        by auto
      then show ?thesis by blast
    qed
  qed
qed


lemma time_Sub_gt: "time_Sub t u > 5 * Minute \<longleftrightarrow> t - u > 5 * Minute"
  by (simp add: time_Sub_def Minute_def Second_def maxDuration_def minDuration_def)

lemma runAutomation_no_refresh:
  assumes "clock w (Suc (reads w)) - lastLightStateRefresh s \<le> 5 * Minute"
  shows "runAutomation s w =
     setLightsState (night_at s w 2) s
       (w\<lparr>reads := Suc (Suc (Suc (reads w))),
          trace := trace w @ [Log Info ''Tick at %v'', Log Info ''Sunrise at %v, Sunset at %v'']\<rparr>)"
  using assms
  by (simp add: runAutomation_def time_Now_def time_Since_def logf_def emit_def time_Sub_gt
        CalculateSunriseSunset_def night_at_def split: prod.splits)




lemma refreshLightStates_body_panic:
  "refreshLightStates_body l s w = (Inl p, w') \<Longrightarrow> p = NilPointerDereference"
  by (auto simp: refreshLightStates_body_def GetOneLightById_def doRequest_def
        split: option.splits outcome.splits)

lemma refreshLightStates_body_nil:
  "ID l = None \<Longrightarrow> refreshLightStates_body l s w = (Inl NilPointerDereference, w)"
  by (simp add: refreshLightStates_body_def)

lemma refresh_range_panic:
  "for_range refreshLightStates_body ls s w = (Inl p, w') \<Longrightarrow> p = NilPointerDereference"
proof (induction ls arbitrary: s w)
  case Nil
  then show ?case by simp
next
  case (Cons l ls)
  obtain r w1 where b: "refreshLightStates_body l s w = (r, w1)" by fastforce
  show ?case
  proof (cases r)
    case (Inl q)
    with b Cons.prems refreshLightStates_body_panic[of l s w q w1] show ?thesis by simp
  next
    case (Inr s1)
    with b Cons.prems have "for_range refreshLightStates_body ls s1 w1 = (Inl p, w')" by simp
    then show ?thesis by (rule Cons.IH)
  qed
qed

lemma refresh_range_ids:
  "for_range refreshLightStates_body ls s w = (Inr s', w') \<Longrightarrow> None \<notin> ID ` set ls"
proof (induction ls arbitrary: s w)
  case Nil
  then show ?case by simp
next
  case (Cons l ls)
  obtain r w1 where b: "refreshLightStates_body l s w = (r, w1)" by fastforce
  show ?case
  proof (cases r)
    case (Inl q)
    with b Cons.prems show ?thesis by simp
  next
    case (Inr s1)
    with b Cons.prems have "for_range refreshLightStates_body ls s1 w1 = (Inr s', w')" by simp
    from Cons.IH[OF this] have "None \<notin> ID ` set ls" .
    moreover from b Inr have "ID l \<noteq> None"
      by (cases "ID l") (simp_all add: refreshLightStates_body_nil)
    ultimately show ?thesis by auto
  qed
qed

lemma refreshLightStates_nil_id:
  assumes "None \<in> ID ` set (Lights (config s))"
  shows "\<exists>w'. refreshLightStates s w = (Inl NilPointerDereference, w')"
proof -
  obtain r w1 where f: "for_range refreshLightStates_body (Lights (config s)) s w = (r, w1)"
    by fastforce
  show ?thesis
  proof (cases r)
    case (Inl p)
    with f refresh_range_panic[of "Lights (config s)" s w p w1] show ?thesis
      by (simp add: refreshLightStates_def)
  next
    case (Inr s1)
    with f refresh_range_ids[of "Lights (config s)" s w s1 w1] assms show ?thesis by simp
  qed
qed

lemma setLightsState_nil_id:
  assumes "None \<in> ID ` set (Lights (config s))"
  shows "\<exists>w'. setLightsState turnOn s w = (Inl NilPointerDereference, w')"
proof -
  obtain r w1 where f: "for_range (setLightsState_body turnOn) (Lights (config s)) s w = (r, w1)"
    by fastforce
  show ?thesis
  proof (cases r)
    case (Inl p)
    with f setLights_range_panic[of turnOn "Lights (config s)" s w p w1] show ?thesis
      by (simp add: setLightsState_def)
  next
    case (Inr s1)
    with f setLights_range_state[of turnOn "Lights (config s)" s w s1 w1] assms show ?thesis by simp
  qed
qed

lemma runAutomation_nil_id:
  assumes "None \<in> ID ` set (Lights (config s))"
  shows "\<exists>w'. runAutomation s w = (Inl NilPointerDereference, w')"
proof (cases "clock w (Suc (reads w)) - lastLightStateRefresh s \<le> 5 * Minute")
  case True
  from runAutomation_no_refresh[OF True] setLightsState_nil_id[OF assms] show ?thesis by simp
next
  case False
  let ?w1 = "snd (time_Since (lastLightStateRefresh s) (logf Info ''Tick at %v'' (snd (time_Now w))))"
  from refreshLightStates_nil_id[OF assms, of ?w1] obtain w' where
    "refreshLightStates s ?w1 = (Inl NilPointerDereference, w')" by blast
  with False show ?thesis
    by (simp add: runAutomation_def time_Now_def time_Since_def logf_def emit_def time_Sub_gt
          split: prod.splits)
qed






section \<open>The refresh pass\<close>

lemma fetched_append [simp]: "fetched (xs @ ys) = fetched xs @ fetched ys"
  by (induction xs rule: fetched.induct) simp_all

lemma fetched_commands: "set cs \<subseteq> range (command b) \<Longrightarrow> fetched cs = []"
  by (induction cs rule: fetched.induct) (auto simp: command_def split: if_splits)

lemma refreshLightStates_body_Failed:
  "ID l = Some lid \<Longrightarrow> link w (nreq w) = Failed \<Longrightarrow>
   refreshLightStates_body l s w =
     (Inr s, w\<lparr>nreq := Suc (nreq w),
               trace := trace w @ [Sent (GetOne lid),
                 Log Warn ''Could not refresh state for light %s: %v'']\<rparr>)"
  by (simp add: refreshLightStates_body_def GetOneLightById_def doRequest_def emit_def logf_def)

lemma refreshLightStates_body_Served:
  "ID l = Some lid \<Longrightarrow> link w (nreq w) = Served \<Longrightarrow>
   refreshLightStates_body l s w =
     (Inr (s\<lparr>lightStates := (lightStates s)(lid \<mapsto> lamps w lid)\<rparr>),
      w\<lparr>nreq := Suc (nreq w), trace := trace w @ [Sent (GetOne lid)]\<rparr>)"
  by (simp add: refreshLightStates_body_def GetOneLightById_def doRequest_def emit_def logf_def)

lemma refreshLightStates_body_NoData:
  "ID l = Some lid \<Longrightarrow> link w (nreq w) = NoData \<Longrightarrow>
   refreshLightStates_body l s w =
     (Inl NilPointerDereference,
      w\<lparr>nreq := Suc (nreq w), trace := trace w @ [Sent (GetOne lid)]\<rparr>)"
  by (simp add: refreshLightStates_body_def GetOneLightById_def doRequest_def emit_def logf_def)

lemma refreshLightStates_body_Inr:
  assumes "refreshLightStates_body l s w = (Inr s', w')"
  obtains lid es where "ID l = Some lid" "link w (nreq w) \<noteq> NoData"
    "trace w' = trace w @ es" "sent es = [GetOne lid]"
    "nreq w' = Suc (nreq w)" "link w' = link w" "clock w' = clock w"
    "reads w' = reads w" "lamps w' = lamps w" "sun w' = sun w"
    "s' = (if link w (nreq w) = Failed then s
           else s\<lparr>lightStates := (lightStates s)(lid \<mapsto> lamps w lid)\<rparr>)"
proof (cases "ID l")
  case None
  with assms show ?thesis by (simp add: refreshLightStates_body_def)
next
  case (Some lid)
  show ?thesis
  proof (cases "link w (nreq w)")
    case Failed
    from assms refreshLightStates_body_Failed[OF Some Failed, of s]
    have "s' = s" "w' = w\<lparr>nreq := Suc (nreq w),
               trace := trace w @ [Sent (GetOne lid),
                 Log Warn ''Could not refresh state for light %s: %v'']\<rparr>" by simp_all
    with Some Failed show ?thesis
      by (intro that[of lid "[Sent (GetOne lid), Log Warn ''Could not refresh state for light %s: %v'']"]) simp_all
  next
    case NoData
    with assms refreshLightStates_body_NoData[OF Some NoData, of s] show ?thesis by simp
  next
    case Served
    from assms refreshLightStates_body_Served[OF Some Served, of s]
    have "s' = s\<lparr>lightStates := (lightStates s)(lid \<mapsto> lamps w lid)\<rparr>"
      "w' = w\<lparr>nreq := Suc (nreq w), trace := trace w @ [Sent (GetOne lid)]\<rparr>" by simp_all
    with Some Served show ?thesis
      by (intro that[of lid "[Sent (GetOne lid)]"]) simp_all
  qed
qed

lemma refreshLightStates_body_total:
  assumes "ID l \<noteq> None" and "link w (nreq w) \<noteq> NoData"
  shows "\<exists>s' w'. refreshLightStates_body l s w = (Inr s', w')"
proof -
  from assms(1) obtain lid where l: "ID l = Some lid" by auto
  from assms(2) show ?thesis
    by (cases "link w (nreq w)")
       (simp_all add: refreshLightStates_body_Failed[OF l] refreshLightStates_body_Served[OF l])
qed

lemma refresh_range_total:
  assumes "None \<notin> ID ` set ls" and "\<forall>i<length ls. link w (nreq w + i) \<noteq> NoData"
  shows "\<exists>s' w'. for_range refreshLightStates_body ls s w = (Inr s', w')"
  using assms
proof (induction ls arbitrary: s w)
  case Nil
  then show ?case by simp
next
  case (Cons l ls)
  from Cons.prems have "ID l \<noteq> None" "link w (nreq w) \<noteq> NoData" by force+
  from refreshLightStates_body_total[OF this] obtain s1 w1 where
    b: "refreshLightStates_body l s w = (Inr s1, w1)" by blast
  from b have f: "nreq w1 = Suc (nreq w)" "link w1 = link w"
    by (rule refreshLightStates_body_Inr; simp)+
  have "\<forall>i<length ls. link w1 (nreq w1 + i) \<noteq> NoData"
  proof (intro allI impI)
    fix i assume "i < length ls"
    with Cons.prems(2) have "link w (nreq w + Suc i) \<noteq> NoData" by auto
    with f show "link w1 (nreq w1 + i) \<noteq> NoData" by simp
  qed
  with Cons.IH[of w1 s1] Cons.prems(1) obtain s' w' where
    "for_range refreshLightStates_body ls s1 w1 = (Inr s', w')" by auto
  with b show ?case by simp
qed

lemma refresh_range_Inr:
  assumes "for_range refreshLightStates_body ls s w = (Inr s', w')"
  shows "(\<exists>es. trace w' = trace w @ es \<and> sent es = map GetOne (ids ls)) \<and>
         nreq w' = nreq w + length ls \<and> link w' = link w \<and> clock w' = clock w \<and>
         reads w' = reads w \<and> lamps w' = lamps w \<and> sun w' = sun w \<and>
         (\<exists>m. s' = s\<lparr>lightStates := m\<rparr> \<and>
            (\<forall>k. (\<forall>i<length ls. ID (ls ! i) = Some k \<longrightarrow> link w (nreq w + i) = Failed) \<longrightarrow>
                 m k = lightStates s k))"
  using assms
proof (induction ls arbitrary: s w)
  case Nil
  then have "s' = s\<lparr>lightStates := lightStates s\<rparr>" "w' = w" by simp_all
  then show ?case by (intro conjI exI[of _ "[]"] exI[of _ "lightStates s"]) simp_all
next
  case (Cons l ls)
  from Cons.prems obtain s1 w1 where
    b: "refreshLightStates_body l s w = (Inr s1, w1)" and
    r: "for_range refreshLightStates_body ls s1 w1 = (Inr s', w')"
    by (auto split: prod.splits sum.splits)
  from b obtain lid es1 where
    l: "ID l = Some lid" and t1: "trace w1 = trace w @ es1" "sent es1 = [GetOne lid]" and
    f1: "nreq w1 = Suc (nreq w)" "link w1 = link w" "clock w1 = clock w" "reads w1 = reads w"
        "lamps w1 = lamps w" "sun w1 = sun w" and
    s1: "s1 = (if link w (nreq w) = Failed then s
               else s\<lparr>lightStates := (lightStates s)(lid \<mapsto> lamps w lid)\<rparr>)"
    by (rule refreshLightStates_body_Inr)
  from Cons.IH[OF r] obtain es m where
    t: "trace w' = trace w1 @ es" "sent es = map GetOne (ids ls)" and
    f: "nreq w' = nreq w1 + length ls" "link w' = link w1" "clock w' = clock w1"
       "reads w' = reads w1" "lamps w' = lamps w1" "sun w' = sun w1" and
    m: "s' = s1\<lparr>lightStates := m\<rparr>"
       "\<forall>k. (\<forall>i<length ls. ID (ls ! i) = Some k \<longrightarrow> link w1 (nreq w1 + i) = Failed) \<longrightarrow>
             m k = lightStates s1 k"
    by blast
  have tr: "trace w' = trace w @ (es1 @ es) \<and> sent (es1 @ es) = map GetOne (ids (l # ls))"
    using t t1 l by simp
  have s': "s' = s\<lparr>lightStates := m\<rparr>" using m(1) s1 by (simp split: if_splits)
  have keep: "m k = lightStates s k"
    if h: "\<forall>i<length (l # ls). ID ((l # ls) ! i) = Some k \<longrightarrow> link w (nreq w + i) = Failed" for k
  proof -
    have "\<forall>i<length ls. ID (ls ! i) = Some k \<longrightarrow> link w1 (nreq w1 + i) = Failed"
    proof (intro allI impI)
      fix i assume "i < length ls" "ID (ls ! i) = Some k"
      with h have "link w (nreq w + Suc i) = Failed" by force
      with f1 show "link w1 (nreq w1 + i) = Failed" by simp
    qed
    with m(2) have 1: "m k = lightStates s1 k" by blast
    show ?thesis
    proof (cases "k = lid")
      case True
      with h l have "link w (nreq w) = Failed" by force
      with s1 1 show ?thesis by simp
    next
      case False
      with s1 1 show ?thesis by (simp split: if_splits)
    qed
  qed
  have A: "\<exists>es. trace w' = trace w @ es \<and> sent es = map GetOne (ids (l # ls))"
    using tr by blast
  have B: "nreq w' = nreq w + length (l # ls)" "link w' = link w" "clock w' = clock w"
    "reads w' = reads w" "lamps w' = lamps w" "sun w' = sun w"
    using f f1 by simp_all
  have M: "\<exists>m. s' = s\<lparr>lightStates := m\<rparr> \<and>
            (\<forall>k. (\<forall>i<length (l # ls). ID ((l # ls) ! i) = Some k \<longrightarrow>
                    link w (nreq w + i) = Failed) \<longrightarrow> m k = lightStates s k)"
    using s' keep by blast
  show ?case
    apply (intro conjI)
           apply (rule A)
          apply (rule B(1))
         apply (rule B(2))
        apply (rule B(3))
       apply (rule B(4))
      apply (rule B(5))
     apply (rule B(6))
    apply (rule M)
    done
qed

lemma setLightsState_body_frame:
  "setLightsState_body b l s w = (r, w') \<Longrightarrow>
     clock w' = clock w \<and> reads w' = reads w \<and> sun w' = sun w"
  by (cases b; cases "ID l"; cases "link w (nreq w)")
     (auto simp: setLightsState_body_def TurnOnLightById_def TurnOffLightById_def
        UpdateOneLightById_def doRequest_def emit_def logf_def Let_def split: if_splits)

lemma setLights_range_frame:
  "for_range (setLightsState_body b) ls s w = (r, w') \<Longrightarrow>
     clock w' = clock w \<and> reads w' = reads w \<and> sun w' = sun w"
proof (induction ls arbitrary: s w)
  case Nil
  then show ?case by simp
next
  case (Cons l ls)
  obtain r1 w1 where b: "setLightsState_body b l s w = (r1, w1)" by fastforce
  note f = setLightsState_body_frame[OF b]
  show ?case
  proof (cases r1)
    case (Inl p)
    with b Cons.prems f show ?thesis by simp
  next
    case (Inr s1)
    with b Cons.prems have "for_range (setLightsState_body b) ls s1 w1 = (r, w')" by simp
    from Cons.IH[OF this] f show ?thesis by simp
  qed
qed

lemma refreshLightStates_Inr:
  assumes "refreshLightStates s w = (Inr s', w')"
  obtains es m where "trace w' = trace w @ es" "sent es = map GetOne (ids (Lights (config s)))"
    "s' = s\<lparr>lightStates := m, lastLightStateRefresh := clock w (reads w)\<rparr>"
    "reads w' = Suc (reads w)" "clock w' = clock w" "link w' = link w" "sun w' = sun w"
    "lamps w' = lamps w" "nreq w' = nreq w + length (Lights (config s))"
    "\<forall>k. (\<forall>i<length (Lights (config s)). ID (Lights (config s) ! i) = Some k \<longrightarrow>
              link w (nreq w + i) = Failed) \<longrightarrow> m k = lightStates s k"
proof -
  let ?ls = "Lights (config s)"
  obtain r1 w1 where f: "for_range refreshLightStates_body ?ls s w = (r1, w1)" by fastforce
  with assms obtain s1 where r1: "r1 = Inr s1"
    by (cases r1) (simp_all add: refreshLightStates_def)
  from assms f r1 have s': "s' = s1\<lparr>lastLightStateRefresh := clock w1 (reads w1)\<rparr>"
    and w': "w' = w1\<lparr>reads := Suc (reads w1)\<rparr>"
    by (simp_all add: refreshLightStates_def time_Now_def)
  from refresh_range_Inr[OF f[unfolded r1]] obtain es m where
    t: "trace w1 = trace w @ es" "sent es = map GetOne (ids ?ls)" and
    fr: "nreq w1 = nreq w + length ?ls" "link w1 = link w" "clock w1 = clock w"
        "reads w1 = reads w" "lamps w1 = lamps w" "sun w1 = sun w" and
    m: "s1 = s\<lparr>lightStates := m\<rparr>"
       "\<forall>k. (\<forall>i<length ?ls. ID (?ls ! i) = Some k \<longrightarrow> link w (nreq w + i) = Failed) \<longrightarrow>
           m k = lightStates s k"
    by (elim conjE exE)
  show ?thesis
    by (rule that[of es m]) (simp_all add: s' w' t fr m)
qed

lemma runAutomation_refresh:
  assumes "clock w (Suc (reads w)) - lastLightStateRefresh s > 5 * Minute"
  shows "runAutomation s w =
     (case refreshLightStates s
             (w\<lparr>trace := trace w @ [Log Info ''Tick at %v''], reads := Suc (Suc (reads w))\<rparr>) of
        (Inl p, w2) \<Rightarrow> (Inl p, w2)
      | (Inr s1, w2) \<Rightarrow>
          setLightsState
            (case sun w2 (Latitude (Location (config s1))) (Longitude (Location (config s1)))
                    (clock w2 (reads w2)) of
               (sunriseTime, sunsetTime) \<Rightarrow> isNight (clock w (reads w)) sunriseTime sunsetTime)
            s1
            (w2\<lparr>reads := Suc (reads w2),
                trace := trace w2 @ [Log Info ''Sunrise at %v, Sunset at %v'']\<rparr>))"
proof -
  let ?w1 = "w\<lparr>trace := trace w @ [Log Info ''Tick at %v''], reads := Suc (Suc (reads w))\<rparr>"
  obtain r w2 where R: "refreshLightStates s ?w1 = (r, w2)" by fastforce
  show ?thesis
  proof (cases r)
    case (Inl p)
    with R assms show ?thesis
      by (simp add: runAutomation_def time_Now_def time_Since_def logf_def emit_def time_Sub_gt)
  next
    case (Inr s1)
    with R assms show ?thesis
      by (simp add: runAutomation_def time_Now_def time_Since_def logf_def emit_def time_Sub_gt
            CalculateSunriseSunset_def split: prod.splits)
  qed
qed

lemma fetched_map_GetOne [simp]: "fetched (map GetOne xs) = xs"
  by (induction xs) simp_all

lemma setLightsState_Inr:
  assumes "setLightsState b s w = (Inr s', w')"
  obtains es where "trace w' = trace w @ es" "fetched (sent es) = []"
    "clock w' = clock w" "reads w' = reads w"
    "s' = s\<lparr>lightStates := settled b (Lights (config s)) (lightStates s)\<rparr>"
proof -
  from assms have f: "for_range (setLightsState_body b) (Lights (config s)) s w = (Inr s', w')"
    by (simp add: setLightsState_def)
  from setLights_range_trace[OF f] obtain es where
    es: "trace w' = trace w @ es"
        "set (sent es) \<subseteq> command b ` pending b (Lights (config s)) (lightStates s)"
    by blast
  from es(2) have "set (sent es) \<subseteq> range (command b)" by auto
  then have "fetched (sent es) = []" by (rule fetched_commands)
  with es(1) setLights_range_frame[OF f] setLights_range_state[OF f] show ?thesis
    by (intro that[of es]) simp_all
qed

lemma tick_without_refresh:
  assumes "runAutomation s w = (Inr s', w')"
    and "clock w (Suc (reads w)) - lastLightStateRefresh s \<le> 5 * Minute"
  shows "lastLightStateRefresh s' = lastLightStateRefresh s"
    and "fetched (issued w w') = []"
    and "clock w' = clock w" and "reads w' = reads w + 3"
proof -
  let ?w3 = "w\<lparr>reads := Suc (Suc (Suc (reads w))),
          trace := trace w @ [Log Info ''Tick at %v'', Log Info ''Sunrise at %v, Sunset at %v'']\<rparr>"
  from runAutomation_no_refresh[OF assms(2)] assms(1)
  have p: "setLightsState (night_at s w 2) s ?w3 = (Inr s', w')" by simp
  from p obtain es where es: "trace w' = trace ?w3 @ es" "fetched (sent es) = []"
    "clock w' = clock ?w3" "reads w' = reads ?w3"
    "s' = s\<lparr>lightStates := settled (night_at s w 2) (Lights (config s)) (lightStates s)\<rparr>"
    by (rule setLightsState_Inr)
  from es(5) show "lastLightStateRefresh s' = lastLightStateRefresh s" by simp
  from es(1,2) show "fetched (issued w w') = []" by (simp add: issued_def)
  from es(3) show "clock w' = clock w" by simp
  from es(4) show "reads w' = reads w + 3" by simp
qed

lemma tick_with_refresh:
  assumes "runAutomation s w = (Inr s', w')"
    and "clock w (Suc (reads w)) - lastLightStateRefresh s > 5 * Minute"
  shows "lastLightStateRefresh s' = clock w (Suc (Suc (reads w)))"
    and "fetched (issued w w') = ids (Lights (config s))"
    and "clock w' = clock w" and "reads w' = reads w + 4"
proof -
  let ?w1 = "w\<lparr>trace := trace w @ [Log Info ''Tick at %v''], reads := Suc (Suc (reads w))\<rparr>"
  obtain r1 w2 where R: "refreshLightStates s ?w1 = (r1, w2)" by fastforce
  from runAutomation_refresh[OF assms(2)] assms(1) R obtain s1 where r1: "r1 = Inr s1"
    by (cases r1) simp_all
  let ?b = "case sun w2 (Latitude (Location (config s1))) (Longitude (Location (config s1)))
                    (clock w2 (reads w2)) of
               (sunriseTime, sunsetTime) \<Rightarrow> isNight (clock w (reads w)) sunriseTime sunsetTime"
  let ?w3 = "w2\<lparr>reads := Suc (reads w2),
                trace := trace w2 @ [Log Info ''Sunrise at %v, Sunset at %v'']\<rparr>"
  from runAutomation_refresh[OF assms(2)] assms(1) R r1
  have p: "setLightsState ?b s1 ?w3 = (Inr s', w')" by simp
  from R[unfolded r1] obtain es m where
    e1: "trace w2 = trace ?w1 @ es" "sent es = map GetOne (ids (Lights (config s)))"
      "s1 = s\<lparr>lightStates := m, lastLightStateRefresh := clock ?w1 (reads ?w1)\<rparr>"
      "reads w2 = Suc (reads ?w1)" "clock w2 = clock ?w1"
    by (rule refreshLightStates_Inr)
  from p obtain es' where e2: "trace w' = trace ?w3 @ es'" "fetched (sent es') = []"
    "clock w' = clock ?w3" "reads w' = reads ?w3"
    "s' = s1\<lparr>lightStates := settled ?b (Lights (config s1)) (lightStates s1)\<rparr>"
    by (rule setLightsState_Inr)
  from e2(5) e1(3) show "lastLightStateRefresh s' = clock w (Suc (Suc (reads w)))" by simp
  from e1(1,2) e2(1,2) show "fetched (issued w w') = ids (Lights (config s))"
    by (simp add: issued_def)
  from e2(3) e1(5) show "clock w' = clock w" by simp
  from e2(4) e1(4) show "reads w' = reads w + 4" by simp
qed

lemma tick_after_refresh:
  assumes "runAutomation s w = (Inr s1, w1)" and "runAutomation s1 w1 = (Inr s2, w2)"
    and "\<forall>i j. i \<le> j \<longrightarrow> clock w i \<le> clock w j"
    and "clock w (Suc (reads w)) - lastLightStateRefresh s > 5 * Minute"
    and "clock w1 (Suc (reads w1)) - clock w (Suc (reads w)) \<le> 5 * Minute"
  shows "lastLightStateRefresh s2 = lastLightStateRefresh s1 \<and> fetched (issued w1 w2) = []"
proof -
  note t1 = tick_with_refresh[OF assms(1,4)]
  from assms(3) have "clock w (Suc (reads w)) \<le> clock w (Suc (Suc (reads w)))" by simp
  with t1(1) assms(5)
  have "clock w1 (Suc (reads w1)) - lastLightStateRefresh s1 \<le> 5 * Minute" by simp
  from tick_without_refresh[OF assms(2) this] show ?thesis by simp
qed


section \<open>The tick loop and the accept loop\<close>




lemma fst_deferred_Stop [simp]: "fst (deferred_Stop p s w) = Inl p"
  by (simp add: deferred_Stop_def split: prod.splits sum.splits)

lemma deferred_Stop_Inl: "\<exists>w'. deferred_Stop p s w = (Inl p, w')"
  by (simp add: deferred_Stop_def split: prod.splits sum.splits)




lemma setLightsState_body_quiet:
  "setLightsState_body b l s w = (r, w') \<Longrightarrow>
     count_list (trace w') Notified = count_list (trace w) Notified"
  by (cases b; cases "ID l"; cases "link w (nreq w)")
     (auto simp: setLightsState_body_def TurnOnLightById_def TurnOffLightById_def
        UpdateOneLightById_def doRequest_def emit_def logf_def Let_def split: if_splits)

lemma setLights_range_quiet:
  "for_range (setLightsState_body b) ls s w = (r, w') \<Longrightarrow>
     count_list (trace w') Notified = count_list (trace w) Notified"
proof (induction ls arbitrary: s w)
  case Nil
  then show ?case by simp
next
  case (Cons l ls)
  obtain r1 w1 where b: "setLightsState_body b l s w = (r1, w1)" by fastforce
  note f = setLightsState_body_quiet[OF b]
  show ?case
  proof (cases r1)
    case (Inl p)
    with b Cons.prems f show ?thesis by simp
  next
    case (Inr s1)
    with b Cons.prems have "for_range (setLightsState_body b) ls s1 w1 = (r, w')" by simp
    from Cons.IH[OF this] f show ?thesis by simp
  qed
qed

lemma setLightsState_total:
  assumes "None \<notin> ID ` set (Lights (config s))"
  shows "\<exists>s' w'. setLightsState b s w = (Inr s', w')"
proof -
  obtain r w' where f: "for_range (setLightsState_body b) (Lights (config s)) s w = (r, w')"
    by fastforce
  show ?thesis
  proof (cases r)
    case (Inl p)
    with f setLights_range_panic[of b "Lights (config s)" s w p w'] assms show ?thesis by simp
  next
    case (Inr s')
    with f show ?thesis by (simp add: setLightsState_def)
  qed
qed

lemma Stop_Inr:
  assumes "ticker s = None \<or> tickerStop s = Open"
  obtains s1 w1 where "Stop s w = (Inr s1, w1)" "ticker s1 = None" "config s1 = config s"
    "count_list (trace w1) Notified = count_list (trace w) Notified"
proof (cases "ticker s")
  case None
  then show ?thesis
    by (intro that[of s "logf Warn ''Light Automation Service is not running'' w"])
       (simp_all add: Stop_def logf_def emit_def)
next
  case (Some t)
  with assms have "tickerStop s = Open" by simp
  with Some show ?thesis
    by (intro that[of "s\<lparr>ticker := None, tickerStop := Closed\<rparr>"
          "emit StopClosed (emit TickerStopped (logf Info ''Stopping Light Automation Service'' w))"])
       (simp_all add: Stop_def logf_def emit_def)
qed

lemma close_conns_trace: "trace (close_conns n w) = trace w @ replicate n ConnClosed"
  by (induction n arbitrary: w) (simp_all add: emit_def replicate_app_Cons_same)

lemma accept_deferred_quiet:
  "count_list (trace (snd (accept_deferred n e w))) Notified = count_list (trace w) Notified"
  by (simp add: accept_deferred_def emit_def logf_def close_conns_trace count_list_0_iff)


lemma refresh_range_cache:
  assumes "for_range refreshLightStates_body ls s w = (Inr s', w')"
  shows "lightStates s' k =
     (if \<exists>i<length ls. ID (ls ! i) = Some k \<and> link w (nreq w + i) = Served
      then Some (lamps w k) else lightStates s k)"
  using assms
proof (induction ls arbitrary: s w)
  case Nil
  then show ?case by simp
next
  case (Cons l ls)
  from Cons.prems obtain s1 w1 where
    b: "refreshLightStates_body l s w = (Inr s1, w1)" and
    r: "for_range refreshLightStates_body ls s1 w1 = (Inr s', w')"
    by (auto split: prod.splits sum.splits)
  from b obtain lid es1 where
    l: "ID l = Some lid" and nd: "link w (nreq w) \<noteq> NoData" and
    f1: "nreq w1 = Suc (nreq w)" "link w1 = link w" "lamps w1 = lamps w" and
    s1: "s1 = (if link w (nreq w) = Failed then s
               else s\<lparr>lightStates := (lightStates s)(lid \<mapsto> lamps w lid)\<rparr>)"
    by (rule refreshLightStates_body_Inr)
  let ?P = "\<lambda>i. ID ((l # ls) ! i) = Some k \<and> link w (nreq w + i) = Served"
  let ?Q = "\<lambda>i. ID (ls ! i) = Some k \<and> link w1 (nreq w1 + i) = Served"
  have Q: "?Q i = ?P (Suc i)" for i using f1 by simp
  have ex: "(\<exists>i<length (l # ls). ?P i) \<longleftrightarrow> ?P 0 \<or> (\<exists>i<length ls. ?Q i)"
  proof
    assume "\<exists>i<length (l # ls). ?P i"
    then obtain i where i: "i < length (l # ls)" "?P i" by blast
    show "?P 0 \<or> (\<exists>i<length ls. ?Q i)"
    proof (cases i)
      case 0
      with i show ?thesis by simp
    next
      case (Suc j)
      with i have j: "j < length ls" and "?P (Suc j)" by simp_all
      then have "?Q j" using f1 by simp
      with j show ?thesis by blast
    qed
  next
    assume "?P 0 \<or> (\<exists>i<length ls. ?Q i)"
    then show "\<exists>i<length (l # ls). ?P i"
    proof
      assume "?P 0" then show ?thesis by (intro exI[of _ 0]) simp
    next
      assume "\<exists>i<length ls. ?Q i"
      then obtain j where j: "j < length ls" "?Q j" by blast
      then have "?P (Suc j)" using f1 by simp
      with j(1) show ?thesis by (intro exI[of _ "Suc j"]) simp
    qed
  qed
  define A where "A \<longleftrightarrow> (\<exists>i<length ls. ?Q i)"
  define B where "B \<longleftrightarrow> lid = k \<and> link w (nreq w) = Served"
  have P0: "?P 0 \<longleftrightarrow> B" using l by (auto simp: B_def)
  have IH: "lightStates s' k = (if A then Some (lamps w k) else lightStates s1 k)"
    unfolding A_def f1(3)[symmetric] by (rule Cons.IH[OF r])
  have head: "lightStates s1 k = (if B then Some (lamps w k) else lightStates s k)"
    unfolding B_def using s1 nd by (cases "link w (nreq w)") auto
  have goal: "(\<exists>i<length (l # ls). ?P i) \<longleftrightarrow> B \<or> A"
    using ex P0 by (simp only: A_def)
  have "lightStates s' k = (if B \<or> A then Some (lamps w k) else lightStates s k)"
    using IH head by (cases A; cases B) simp_all
  then show ?case by (simp only: goal)
qed

lemma refreshLightStates_cache:
  assumes "refreshLightStates s w = (Inr s', w')"
  shows "lightStates s' k =
     (if \<exists>i<length (Lights (config s)).
           ID (Lights (config s) ! i) = Some k \<and> link w (nreq w + i) = Served
      then Some (lamps w k) else lightStates s k)"
proof -
  obtain r1 w1 where f: "for_range refreshLightStates_body (Lights (config s)) s w = (r1, w1)"
    by fastforce
  with assms obtain s1 where r1: "r1 = Inr s1"
    by (cases r1) (simp_all add: refreshLightStates_def)
  from assms f r1 have "lightStates s' = lightStates s1"
    by (auto simp: refreshLightStates_def time_Now_def)
  with refresh_range_cache[OF f[unfolded r1], of k] show ?thesis by simp
qed





lemmas eval_defs =
  runAutomation_def refreshLightStates_def refreshLightStates_body_def setLightsState_def
  setLightsState_body_def GetOneLightById_def TurnOnLightById_def TurnOffLightById_def
  UpdateOneLightById_def doRequest_def time_Now_def time_Since_def time_Sub_def
  CalculateSunriseSunset_def isNight_def Before_def After_def logf_def emit_def lookup_def
  NewService_def scenario_config_def scenario_world_def Hour_def Minute_def Second_def
  maxDuration_def minDuration_def issued_def Let_def

lemmas run_defs = Start_def Stop_def StopAndTurnOffLights_def runAutomationTickerLoop_def
  deferred_Stop_def

section \<open>Day and night\<close>



section \<open>Skipping lights that are already in the wanted state\<close>











section \<open>Lights without an id\<close>

text \<open>
  C10. \<^verbatim>\<open>validate\<close> accepts a light that has a name and no id. With such a light in
  the configuration, every command pass, every refresh, every tick and the tick loop
  itself end in a nil pointer dereference.
\<close>

theorem name_only_light_panics:
  assumes "None \<in> ID ` set (Lights (config s))"
  shows "validate (Some name_only_config) = None \<and>
         (\<exists>w'. setLightsState turnOn s w = (Inl NilPointerDereference, w')) \<and>
         (\<exists>w'. refreshLightStates s w = (Inl NilPointerDereference, w')) \<and>
         (\<exists>w'. runAutomation s w = (Inl NilPointerDereference, w')) \<and>
         (\<exists>w'. runAutomationTickerLoop sched s w = (Inl NilPointerDereference, w'))"
proof -
  have "validate (Some name_only_config) = None"
    by (simp add: validate_def name_only_config_def)
  moreover from refreshLightStates_nil_id[OF assms, of "logf Info ''Running automation ticker loop'' w"]
  have "\<exists>w'. runAutomationTickerLoop sched s w = (Inl NilPointerDereference, w')"
    using deferred_Stop_Inl[of NilPointerDereference s] by (auto simp: runAutomationTickerLoop_def)
  ultimately show ?thesis
    using setLightsState_nil_id[OF assms] refreshLightStates_nil_id[OF assms]
      runAutomation_nil_id[OF assms]
    by blast
qed

theorem name_only_light_panics_witness:
  "None \<in> ID ` set (Lights (config (NewService name_only_config))) \<and>
   validate (Some name_only_config) = None \<and>
   fst (setLightsState True (NewService name_only_config) night_world) = Inl NilPointerDereference \<and>
   fst (setLightsState False (NewService name_only_config) night_world) = Inl NilPointerDereference \<and>
   fst (refreshLightStates (NewService name_only_config) night_world) = Inl NilPointerDereference \<and>
   fst (runAutomation (NewService name_only_config) night_world) = Inl NilPointerDereference \<and>
   fst (runAutomationTickerLoop [True] (NewService name_only_config) night_world)
     = Inl NilPointerDereference"
proof -
  have h: "None \<in> ID ` set (Lights (config (NewService name_only_config)))"
    by (simp add: NewService_def name_only_config_def)
  from name_only_light_panics[OF h, of True night_world "[True]"]
    name_only_light_panics[OF h, of False night_world "[True]"] h
  show ?thesis by auto
qed

section \<open>A command that fails\<close>

lemma unreachable_first_tick:
  "fst (runAutomation (NewService scenario_config) unreachable_world) = Inr believed_on"
  by (simp add: eval_defs unreachable_world_def believed_on_def)

lemma unreachable_first_issued:
  "issued unreachable_world (snd (runAutomation (NewService scenario_config) unreachable_world)) =
     [GetOne ''L1'', GetOne ''L2'', TurnOn ''L1'', TurnOn ''L2'']"
  by (simp add: eval_defs unreachable_world_def)

lemma unreachable_second_issued:
  "issued (snd (runAutomation (NewService scenario_config) unreachable_world))
     (snd (runAutomation believed_on
        (snd (runAutomation (NewService scenario_config) unreachable_world)))) = []"
  by (simp add: eval_defs unreachable_world_def believed_on_def)

lemma unreachable_lamps:
  "\<not> lamps (snd (runAutomation believed_on
        (snd (runAutomation (NewService scenario_config) unreachable_world)))) ''L1''"
  "\<not> lamps (snd (runAutomation believed_on
        (snd (runAutomation (NewService scenario_config) unreachable_world)))) ''L2''"
  by (simp_all add: eval_defs unreachable_world_def believed_on_def)

text \<open>
  C1. After a command the cached state of the light is the commanded value, whether
  the command succeeded or failed. At 21:00 with the bridge unreachable, the first tick
  sends turn-on to both lights, both commands fail, and both lights are cached as on;
  the next tick sends nothing, and the lamps stay off.
\<close>

theorem failed_command_is_cached:
  "fst (runAutomation (NewService scenario_config) unreachable_world) = Inr believed_on \<and>
   lightStates believed_on ''L1'' = Some True \<and>
   lightStates believed_on ''L2'' = Some True \<and>
   issued unreachable_world (snd (runAutomation (NewService scenario_config) unreachable_world)) =
     [GetOne ''L1'', GetOne ''L2'', TurnOn ''L1'', TurnOn ''L2''] \<and>
   issued (snd (runAutomation (NewService scenario_config) unreachable_world))
     (snd (runAutomation believed_on
        (snd (runAutomation (NewService scenario_config) unreachable_world)))) = [] \<and>
   \<not> lamps (snd (runAutomation believed_on
        (snd (runAutomation (NewService scenario_config) unreachable_world)))) ''L1'' \<and>
   \<not> lamps (snd (runAutomation believed_on
        (snd (runAutomation (NewService scenario_config) unreachable_world)))) ''L2''"
  using unreachable_first_tick unreachable_first_issued unreachable_second_issued
    unreachable_lamps
  by (simp add: believed_on_def)

section \<open>Shutdown with a stale cache\<close>

lemma booted_parked: "fst booted = Inr (Parked, parked_service)"
  by (simp add: booted_def boot_world_def parked_service_def eval_defs run_defs)

lemma booted_issued: "issued boot_world (snd booted) = [GetOne ''L1'', GetOne ''L2'']"
  by (simp add: booted_def boot_world_def eval_defs run_defs)

lemma shutdown_result:
  "fst (StopAndTurnOffLights parked_service (snd booted)) =
     Inr (None, parked_service\<lparr>ticker := None, tickerStop := Closed\<rparr>)"
  by (simp add: booted_def boot_world_def parked_service_def eval_defs run_defs)

lemma shutdown_issued:
  "issued (snd booted) (snd (StopAndTurnOffLights parked_service (snd booted))) = []"
  by (simp add: booted_def boot_world_def parked_service_def eval_defs run_defs)

lemma shutdown_lamps:
  "lamps (snd (StopAndTurnOffLights parked_service (snd booted))) ''L1''"
  "lamps (snd (StopAndTurnOffLights parked_service (snd booted))) ''L2''"
  by (simp_all add: booted_def boot_world_def parked_service_def eval_defs run_defs)

text \<open>
  C2. \<^verbatim>\<open>StopAndTurnOffLights\<close> stops the loop and then runs the command pass towards off,
  which skips every light cached as off. After a start at noon during which the first
  refresh failed, both lamps are on and cached as off: the shutdown sends no request
  and both lamps stay on.
\<close>

theorem shutdown_leaves_lamps_on:
  "fst booted = Inr (Parked, parked_service) \<and>
   issued boot_world (snd booted) = [GetOne ''L1'', GetOne ''L2''] \<and>
   lamps (snd booted) ''L1'' \<and> lamps (snd booted) ''L2'' \<and>
   fst (StopAndTurnOffLights parked_service (snd booted)) =
     Inr (None, parked_service\<lparr>ticker := None, tickerStop := Closed\<rparr>) \<and>
   issued (snd booted) (snd (StopAndTurnOffLights parked_service (snd booted))) = [] \<and>
   lamps (snd (StopAndTurnOffLights parked_service (snd booted))) ''L1'' \<and>
   lamps (snd (StopAndTurnOffLights parked_service (snd booted))) ''L2''"
proof -
  have "lamps (snd booted) ''L1''" "lamps (snd booted) ''L2''"
    by (simp_all add: booted_def boot_world_def eval_defs run_defs)
  with booted_parked booted_issued shutdown_result shutdown_issued shutdown_lamps
  show ?thesis by simp
qed

section \<open>Refresh cadence\<close>

text \<open>
  C6. A tick that completes refreshes exactly when \<^verbatim>\<open>time.Since\<close> reports more than five
  minutes since the last refresh completed: it then fetches every configured light once
  and stores the clock reading taken after the pass; otherwise it fetches nothing and
  keeps the timestamp. On a clock that never runs backwards, a tick whose reading is at
  most five minutes after that of a tick that refreshed does not refresh again.
\<close>

theorem refresh_every_five_minutes:
  "(runAutomation s w = (Inr s', w') \<and>
    clock w (Suc (reads w)) - lastLightStateRefresh s > 5 * Minute \<longrightarrow>
      lastLightStateRefresh s' = clock w (Suc (Suc (reads w))) \<and>
      fetched (issued w w') = ids (Lights (config s))) \<and>
   (runAutomation s w = (Inr s', w') \<and>
    clock w (Suc (reads w)) - lastLightStateRefresh s \<le> 5 * Minute \<longrightarrow>
      lastLightStateRefresh s' = lastLightStateRefresh s \<and> fetched (issued w w') = []) \<and>
   (runAutomation s w = (Inr s', w') \<and> runAutomation s' w' = (Inr s2, w2) \<and>
    (\<forall>i j. i \<le> j \<longrightarrow> clock w i \<le> clock w j) \<and>
    clock w (Suc (reads w)) - lastLightStateRefresh s > 5 * Minute \<and>
    clock w' (Suc (reads w')) - clock w (Suc (reads w)) \<le> 5 * Minute \<longrightarrow>
      lastLightStateRefresh s2 = lastLightStateRefresh s' \<and> fetched (issued w' w2) = [])"
  using tick_with_refresh(1,2)[of s w s' w'] tick_without_refresh(1,2)[of s w s' w']
    tick_after_refresh[of s w s' w' s2 w2]
  by blast

lemma night_first_tick: "fst (runAutomation (NewService scenario_config) night_world) = Inr believed_on"
  by (simp add: eval_defs night_world_def believed_on_def)

lemma night_second_tick:
  "fst (runAutomation believed_on (snd (runAutomation (NewService scenario_config) night_world)))
     = Inr believed_on"
  by (simp add: eval_defs night_world_def believed_on_def)

lemma night_first_elapsed:
  "clock night_world (Suc (reads night_world)) - lastLightStateRefresh (NewService scenario_config)
     > 5 * Minute"
  by (simp add: eval_defs night_world_def)

lemma night_second_elapsed:
  "clock (snd (runAutomation (NewService scenario_config) night_world))
     (Suc (reads (snd (runAutomation (NewService scenario_config) night_world))))
    - clock night_world (Suc (reads night_world)) \<le> 5 * Minute"
  by (simp add: eval_defs night_world_def)

lemma night_clock_mono: "\<forall>i j. i \<le> j \<longrightarrow> clock night_world i \<le> clock night_world j"
  by (simp add: night_world_def scenario_world_def)

theorem refresh_every_five_minutes_witness:
  "clock night_world (Suc (reads night_world)) - lastLightStateRefresh (NewService scenario_config)
     > 5 * Minute \<and>
   fst (runAutomation (NewService scenario_config) night_world) = Inr believed_on \<and>
   lastLightStateRefresh believed_on = clock night_world (Suc (Suc (reads night_world))) \<and>
   fetched (issued night_world (snd (runAutomation (NewService scenario_config) night_world)))
     = [''L1'', ''L2''] \<and>
   fst (runAutomation believed_on (snd (runAutomation (NewService scenario_config) night_world)))
     = Inr believed_on \<and>
   fetched (issued (snd (runAutomation (NewService scenario_config) night_world))
     (snd (runAutomation believed_on (snd (runAutomation (NewService scenario_config) night_world)))))
     = []"
proof -
  let ?w1 = "snd (runAutomation (NewService scenario_config) night_world)"
  let ?w2 = "snd (runAutomation believed_on ?w1)"
  have t1: "runAutomation (NewService scenario_config) night_world = (Inr believed_on, ?w1)"
    by (rule prod_eqI) (simp_all add: night_first_tick)
  have t2: "runAutomation believed_on ?w1 = (Inr believed_on, ?w2)"
    by (rule prod_eqI) (simp_all add: night_second_tick)
  from refresh_every_five_minutes[of "NewService scenario_config" night_world believed_on ?w1
      believed_on ?w2]
    t1 t2 night_first_elapsed night_second_elapsed night_clock_mono
  have "lastLightStateRefresh believed_on = clock night_world (Suc (Suc (reads night_world))) \<and>
    fetched (issued night_world ?w1) = ids (Lights (config (NewService scenario_config))) \<and>
    fetched (issued ?w1 ?w2) = []"
    by blast
  moreover have "ids (Lights (config (NewService scenario_config))) = [''L1'', ''L2'']"
    by (simp add: NewService_def scenario_config_def)
  ultimately show ?thesis
    using night_first_elapsed night_first_tick night_second_tick by simp
qed


section \<open>A fetch that fails\<close>

text \<open>
  C7. When every configured light has an id and no reply is an empty data list, the
  refresh pass completes: it fetches every light in order, a light whose fetches all
  failed keeps its cached entry, a light with a served fetch is cached as the lamp was
  found (whatever failed before or after it), and the timestamp becomes the clock
  reading taken after the pass, also when every fetch failed.
\<close>

theorem refresh_keeps_failed_entries:
  assumes "None \<notin> ID ` set (Lights (config s))"
    and "\<forall>i<length (Lights (config s)). link w (nreq w + i) \<noteq> NoData"
  shows "\<exists>s' w'. refreshLightStates s w = (Inr s', w') \<and>
           issued w w' = map GetOne (ids (Lights (config s))) \<and>
           lastLightStateRefresh s' = clock w (reads w) \<and>
           (\<forall>k. (\<forall>i<length (Lights (config s)).
                    ID (Lights (config s) ! i) = Some k \<longrightarrow> link w (nreq w + i) = Failed) \<longrightarrow>
                lightStates s' k = lightStates s k) \<and>
           ((\<forall>i<length (Lights (config s)). link w (nreq w + i) = Failed) \<longrightarrow>
              lightStates s' = lightStates s) \<and>
           (\<forall>k. (\<exists>i<length (Lights (config s)).
                    ID (Lights (config s) ! i) = Some k \<and> link w (nreq w + i) = Served) \<longrightarrow>
                lightStates s' k = Some (lamps w k)) \<and>
           (\<forall>k. lightStates s' k =
                (if \<exists>i<length (Lights (config s)).
                      ID (Lights (config s) ! i) = Some k \<and> link w (nreq w + i) = Served
                 then Some (lamps w k) else lightStates s k))"
proof -
  from refresh_range_total[OF assms] obtain s1 w1 where
    "for_range refreshLightStates_body (Lights (config s)) s w = (Inr s1, w1)" by blast
  then obtain s' w' where R: "refreshLightStates s w = (Inr s', w')"
    by (simp add: refreshLightStates_def time_Now_def)
  from R obtain es m where
    e: "trace w' = trace w @ es" "sent es = map GetOne (ids (Lights (config s)))"
      "s' = s\<lparr>lightStates := m, lastLightStateRefresh := clock w (reads w)\<rparr>"
      "\<forall>k. (\<forall>i<length (Lights (config s)). ID (Lights (config s) ! i) = Some k \<longrightarrow>
              link w (nreq w + i) = Failed) \<longrightarrow> m k = lightStates s k"
    by (rule refreshLightStates_Inr)
  have keep: "\<forall>k. (\<forall>i<length (Lights (config s)).
                    ID (Lights (config s) ! i) = Some k \<longrightarrow> link w (nreq w + i) = Failed) \<longrightarrow>
                lightStates s' k = lightStates s k"
    using e(3,4) by simp
  have all: "(\<forall>i<length (Lights (config s)). link w (nreq w + i) = Failed) \<longrightarrow>
              lightStates s' = lightStates s"
  proof
    assume a: "\<forall>i<length (Lights (config s)). link w (nreq w + i) = Failed"
    show "lightStates s' = lightStates s"
    proof
      fix k from keep a show "lightStates s' k = lightStates s k" by blast
    qed
  qed
  have cache: "\<forall>k. lightStates s' k =
                (if \<exists>i<length (Lights (config s)).
                      ID (Lights (config s) ! i) = Some k \<and> link w (nreq w + i) = Served
                 then Some (lamps w k) else lightStates s k)"
    using refreshLightStates_cache[OF R] by blast
  have served: "\<forall>k. (\<exists>i<length (Lights (config s)).
                    ID (Lights (config s) ! i) = Some k \<and> link w (nreq w + i) = Served) \<longrightarrow>
                lightStates s' k = Some (lamps w k)"
  proof (intro allI impI)
    fix k
    assume "\<exists>i<length (Lights (config s)).
              ID (Lights (config s) ! i) = Some k \<and> link w (nreq w + i) = Served"
    with cache[rule_format, of k] show "lightStates s' k = Some (lamps w k)" by (simp only: if_True)
  qed
  have "issued w w' = map GetOne (ids (Lights (config s)))"
    using e(1,2) by (simp add: issued_def)
  moreover have "lastLightStateRefresh s' = clock w (reads w)" using e(3) by simp
  ultimately show ?thesis using R keep all served cache by blast
qed

lemma flaky_ids: "None \<notin> ID ` set (Lights (config one_off))"
  by (simp add: one_off_def NewService_def scenario_config_def)

lemma flaky_link: "\<forall>i<length (Lights (config one_off)). link flaky_world (nreq flaky_world + i) \<noteq> NoData"
  by (simp add: flaky_world_def scenario_world_def)

lemma flaky_L1:
  "\<forall>i<length (Lights (config one_off)).
     ID (Lights (config one_off) ! i) = Some ''L1'' \<longrightarrow>
     link flaky_world (nreq flaky_world + i) = Failed"
  by (simp add: one_off_def NewService_def scenario_config_def flaky_world_def scenario_world_def
        nth_Cons split: nat.splits)

lemma flaky_L2:
  "\<exists>i<length (Lights (config one_off)).
     ID (Lights (config one_off) ! i) = Some ''L2'' \<and>
     link flaky_world (nreq flaky_world + i) = Served"
  by (intro exI[of _ 1])
     (simp add: one_off_def NewService_def scenario_config_def flaky_world_def scenario_world_def)

lemma unreachable_ids: "None \<notin> ID ` set (Lights (config (NewService scenario_config)))"
  by (simp add: NewService_def scenario_config_def)

lemma unreachable_link:
  "\<forall>i<length (Lights (config (NewService scenario_config))).
     link unreachable_world (nreq unreachable_world + i) \<noteq> NoData"
  "\<forall>i<length (Lights (config (NewService scenario_config))).
     link unreachable_world (nreq unreachable_world + i) = Failed"
  by (simp_all add: unreachable_world_def scenario_world_def)

theorem refresh_keeps_failed_entries_witness:
  "None \<notin> ID ` set (Lights (config one_off)) \<and>
   link flaky_world (nreq flaky_world) = Failed \<and>
   lightStates one_off ''L1'' = Some False \<and>
   lightStates one_off ''L2'' = None \<and>
   lamps flaky_world ''L2'' \<and>
   (\<exists>s' w'. refreshLightStates one_off flaky_world = (Inr s', w') \<and>
      issued flaky_world w' = [GetOne ''L1'', GetOne ''L2''] \<and>
      lastLightStateRefresh s' = 21 * Hour \<and>
      lightStates s' ''L1'' = Some False \<and>
      lightStates s' ''L2'' = Some True) \<and>
   (\<exists>s' w'. refreshLightStates (NewService scenario_config) unreachable_world = (Inr s', w') \<and>
      issued unreachable_world w' = [GetOne ''L1'', GetOne ''L2''] \<and>
      lastLightStateRefresh s' = 21 * Hour \<and>
      lightStates s' = Map.empty)"
proof -
  from refresh_keeps_failed_entries[OF flaky_ids flaky_link] flaky_L1 flaky_L2
  obtain s' w' where "refreshLightStates one_off flaky_world = (Inr s', w')"
    "issued flaky_world w' = map GetOne (ids (Lights (config one_off)))"
    "lastLightStateRefresh s' = clock flaky_world (reads flaky_world)"
    "lightStates s' ''L1'' = lightStates one_off ''L1''"
    "lightStates s' ''L2'' = Some (lamps flaky_world ''L2'')"
    by blast
  then have A: "\<exists>s' w'. refreshLightStates one_off flaky_world = (Inr s', w') \<and>
      issued flaky_world w' = [GetOne ''L1'', GetOne ''L2''] \<and>
      lastLightStateRefresh s' = 21 * Hour \<and>
      lightStates s' ''L1'' = Some False \<and>
      lightStates s' ''L2'' = Some True"
    by (intro exI[of _ s'] exI[of _ w'])
       (simp add: one_off_def NewService_def scenario_config_def flaky_world_def scenario_world_def)
  from refresh_keeps_failed_entries[OF unreachable_ids unreachable_link(1)] unreachable_link(2)
  obtain t' v' where "refreshLightStates (NewService scenario_config) unreachable_world = (Inr t', v')"
    "issued unreachable_world v' = map GetOne (ids (Lights (config (NewService scenario_config))))"
    "lastLightStateRefresh t' = clock unreachable_world (reads unreachable_world)"
    "lightStates t' = lightStates (NewService scenario_config)"
    by blast
  then have B: "\<exists>s' w'. refreshLightStates (NewService scenario_config) unreachable_world = (Inr s', w') \<and>
      issued unreachable_world w' = [GetOne ''L1'', GetOne ''L2''] \<and>
      lastLightStateRefresh s' = 21 * Hour \<and>
      lightStates s' = Map.empty"
    by (intro exI[of _ t'] exI[of _ v'])
       (simp add: NewService_def scenario_config_def unreachable_world_def scenario_world_def)
  have "link flaky_world (nreq flaky_world) = Failed" "lightStates one_off ''L1'' = Some False"
    "lightStates one_off ''L2'' = None" "lamps flaky_world ''L2''"
    by (simp_all add: flaky_world_def scenario_world_def one_off_def NewService_def)
  with A B flaky_ids show ?thesis by blast
qed


lemma restart_run:
  "ticker parked_service \<noteq> None"
  "fst (Stop parked_service night_world) = Inr stopped_service"
  "fst (Start stopped_service (snd (Stop parked_service night_world))) = (None, restarted_service)"
  by (simp_all add: parked_service_def stopped_service_def restarted_service_def NewService_def
        Stop_def Start_def)

section \<open>Start and Stop in the wrong state\<close>

text \<open>
  C8. \<^verbatim>\<open>Start\<close> on a running service and \<^verbatim>\<open>Stop\<close> on a service that is not running
  return without error and change nothing but the log, which gets a warning. Two
  calls of \<^verbatim>\<open>Start\<close> in a row spawn one tick loop; after a \<^verbatim>\<open>Stop\<close> that returned, a
  second \<^verbatim>\<open>Stop\<close> returns as well, with the service unchanged.
\<close>

theorem wrong_state_calls_are_noops:
  "(ticker s \<noteq> None \<longrightarrow>
      Start s w = ((None, s), logf Warn ''Light Automation Service is already running'' w)) \<and>
   (ticker s = None \<longrightarrow>
      Stop s w = (Inr s, logf Warn ''Light Automation Service is not running'' w)) \<and>
   (ticker s = None \<and> Start s w = ((e1, s1), w1) \<and> Start s1 w1 = ((e2, s2), w2) \<longrightarrow>
      e1 = None \<and> e2 = None \<and> s2 = s1 \<and> ticker s1 = Some (NewTicker (1 * Second)) \<and>
      tasks w1 = Suc (tasks w) \<and> tasks w2 = Suc (tasks w)) \<and>
   (Stop s w = (Inr s1, w1) \<and> Stop s1 w1 = (r2, w2) \<longrightarrow>
      r2 = Inr s1 \<and> w2 = logf Warn ''Light Automation Service is not running'' w1)"
  by (cases "ticker s")
     (auto simp: Start_def Stop_def logf_def emit_def split: if_splits)

theorem wrong_state_calls_are_noops_witness:
  "ticker (NewService scenario_config) = None \<and>
   fst (Start (NewService scenario_config) night_world) = (None, parked_service\<lparr>lastLightStateRefresh := 0\<rparr>) \<and>
   fst (Start (parked_service\<lparr>lastLightStateRefresh := 0\<rparr>)
          (snd (Start (NewService scenario_config) night_world)))
     = (None, parked_service\<lparr>lastLightStateRefresh := 0\<rparr>) \<and>
   tasks (snd (Start (parked_service\<lparr>lastLightStateRefresh := 0\<rparr>)
          (snd (Start (NewService scenario_config) night_world)))) = 1 \<and>
   fst (Stop parked_service night_world) = Inr stopped_service \<and>
   fst (Stop stopped_service (snd (Stop parked_service night_world))) = Inr stopped_service \<and>
   fst (Stop (NewService scenario_config) night_world) = Inr (NewService scenario_config)"
proof -
  let ?s0 = "NewService scenario_config"
  let ?s1 = "parked_service\<lparr>lastLightStateRefresh := 0\<rparr>"
  let ?w1 = "snd (Start ?s0 night_world)"
  let ?w2 = "snd (Start ?s1 ?w1)"
  have n: "ticker ?s0 = None" by (simp add: NewService_def)
  have fa: "fst (Start ?s0 night_world) = (None, ?s1)"
    by (simp add: Start_def NewService_def parked_service_def)
  have fb: "fst (Start ?s1 ?w1) = (None, ?s1)"
    by (simp add: Start_def NewService_def parked_service_def)
  have a: "Start ?s0 night_world = ((None, ?s1), ?w1)"
    by (rule prod_eqI) (simp_all add: fa)
  have b: "Start ?s1 ?w1 = ((None, ?s1), ?w2)"
    by (rule prod_eqI) (simp_all add: fb)
  have c: "Stop parked_service night_world = (Inr stopped_service, snd (Stop parked_service night_world))"
    by (rule prod_eqI) (simp_all add: restart_run)
  have d: "Stop stopped_service (snd (Stop parked_service night_world)) =
      (fst (Stop stopped_service (snd (Stop parked_service night_world))),
       snd (Stop stopped_service (snd (Stop parked_service night_world))))"
    by simp
  have t0: "tasks night_world = 0" by (simp add: night_world_def scenario_world_def)
  from wrong_state_calls_are_noops[where s = ?s0 and w = night_world and ?e1.0 = None
      and ?s1.0 = ?s1 and ?w1.0 = ?w1 and ?e2.0 = None and ?s2.0 = ?s1 and ?w2.0 = ?w2] n a b t0
  have 1: "tasks ?w2 = 1" and 2: "Stop ?s0 night_world = (Inr ?s0, logf Warn ''Light Automation Service is not running'' night_world)"
    by simp_all
  from wrong_state_calls_are_noops[where s = parked_service and w = night_world
      and ?s1.0 = stopped_service and ?w1.0 = "snd (Stop parked_service night_world)"
      and ?r2.0 = "fst (Stop stopped_service (snd (Stop parked_service night_world)))"
      and ?w2.0 = "snd (Stop stopped_service (snd (Stop parked_service night_world)))"] c d
  have 3: "fst (Stop stopped_service (snd (Stop parked_service night_world))) = Inr stopped_service"
    by simp
  from n fa fb restart_run(2) 1 2 3 show ?thesis by simp
qed

section \<open>Start after Stop\<close>





section \<open>The shutdown handshake\<close>

text \<open>
  C3. When a connection delivers the shutdown payload, the stop channel is open, every
  light has an id and \<^verbatim>\<open>Stop\<close> can close \<^verbatim>\<open>tickerStop\<close>, the accept loop calls
  \<^verbatim>\<open>StopAndTurnOffLights\<close> once (the loop is stopped, then the command pass towards off
  runs), then sends once on the stop channel, then runs its deferred calls and
  returns. Whatever would be accepted afterwards is never looked at.
\<close>

theorem shutdown_is_served_once:
  assumes "take 128 bytes = EVENT_TYPE_SHUTDOWN" and "stopChan e = Some Open"
    and "None \<notin> ID ` set (Lights (config s))" and "ticker s = None \<or> tickerStop s = Open"
  shows "\<exists>s1 w1 s2 w2 w'.
     Stop s (logf Info ''Received shutdown event, stopping light automation service''
               (logf Info ''Listening for events on Unix socket: %q'' w)) = (Inr s1, w1) \<and>
     setLightsState False s1 w1 = (Inr s2, w2) \<and>
     StopAndTurnOffLights s (logf Info ''Received shutdown event, stopping light automation service''
               (logf Info ''Listening for events on Unix socket: %q'' w)) = (Inr (None, s2), w2) \<and>
     w' = snd (accept_deferred (Suc conns) e (emit Notified w2)) \<and>
     (\<forall>rest. accept_loop (Connection bytes # rest) conns e s w =
        (Inr (Returned, e\<lparr>listener := Some Closed\<rparr>, s2), w')) \<and>
     ticker s2 = None \<and>
     count_list (trace w2) Notified = count_list (trace w) Notified \<and>
     count_list (trace w') Notified = Suc (count_list (trace w) Notified)"
proof -
  let ?w0 = "logf Info ''Received shutdown event, stopping light automation service''
               (logf Info ''Listening for events on Unix socket: %q'' w)"
  from assms(4) obtain s1 w1 where
    st: "Stop s ?w0 = (Inr s1, w1)" "ticker s1 = None" "config s1 = config s"
      "count_list (trace w1) Notified = count_list (trace ?w0) Notified"
    by (rule Stop_Inr)
  from setLightsState_total[of s1 False w1] assms(3) st(3) obtain s2 w2 where
    off: "setLightsState False s1 w1 = (Inr s2, w2)" by auto
  from off obtain es where "s2 = s1\<lparr>lightStates := settled False (Lights (config s1)) (lightStates s1)\<rparr>"
    by (rule setLightsState_Inr)
  with st(2) have t2: "ticker s2 = None" by simp
  from off have "for_range (setLightsState_body False) (Lights (config s1)) s1 w1 = (Inr s2, w2)"
    by (simp add: setLightsState_def)
  from setLights_range_quiet[OF this] st(4)
  have c2: "count_list (trace w2) Notified = count_list (trace w) Notified"
    by (simp add: logf_def emit_def)
  let ?w' = "snd (accept_deferred (Suc conns) e (emit Notified w2))"
  have c': "count_list (trace ?w') Notified = Suc (count_list (trace w) Notified)"
    using c2 by (simp add: accept_deferred_quiet) (simp add: emit_def)
  have sat: "StopAndTurnOffLights s ?w0 = (Inr (None, s2), w2)"
    using st(1) off by (simp add: StopAndTurnOffLights_def)
  have loop: "accept_loop (Connection bytes # rest) conns e s w =
        (Inr (Returned, e\<lparr>listener := Some Closed\<rparr>, s2), ?w')" for rest
    using assms(1,2) sat
    by (simp add: send_stop_def log_if_err_def accept_deferred_def)
  from st(1) off sat loop t2 c2 c' show ?thesis by blast
qed

lemmas bus_defs = send_stop_def log_if_err_def accept_deferred_def NewExternalEventService_def
  EVENT_TYPE_SHUTDOWN_def

lemma handshake_result:
  "fst (accept_loop [Connection ''shutdown'', Connection ''shutdown''] 0
          (NewExternalEventService (Some Open)) running_on lit_world)
     = Inr (Returned, (NewExternalEventService (Some Open))\<lparr>listener := Some Closed\<rparr>, switched_off)"
  by (simp add: bus_defs running_on_def both_on_def switched_off_def lit_world_def eval_defs run_defs)

lemma handshake_trace:
  "trace (snd (accept_loop [Connection ''shutdown'', Connection ''shutdown''] 0
          (NewExternalEventService (Some Open)) running_on lit_world))
     = [Log Info ''Listening for events on Unix socket: %q'',
        Log Info ''Received shutdown event, stopping light automation service'',
        Log Info ''Stopping Light Automation Service'', TickerStopped, StopClosed,
        Log Info ''It's daytime, lights should remain off'', Sent (TurnOff ''L1''),
        Log Info ''It's daytime, lights should remain off'', Sent (TurnOff ''L2''),
        Notified, ConnClosed, Log Info ''Closing Unix socket listener'',
        ListenerClosed, SocketRemoved]"
  by (simp add: bus_defs running_on_def both_on_def switched_off_def lit_world_def eval_defs run_defs)

lemma handshake_lamps:
  "\<not> lamps (snd (accept_loop [Connection ''shutdown'', Connection ''shutdown''] 0
          (NewExternalEventService (Some Open)) running_on lit_world)) ''L1''"
  "\<not> lamps (snd (accept_loop [Connection ''shutdown'', Connection ''shutdown''] 0
          (NewExternalEventService (Some Open)) running_on lit_world)) ''L2''"
  by (simp_all add: bus_defs running_on_def both_on_def switched_off_def lit_world_def eval_defs run_defs)

lemma handshake_pre:
  "take 128 ''shutdown'' = EVENT_TYPE_SHUTDOWN"
  "stopChan (NewExternalEventService (Some Open)) = Some Open"
  "None \<notin> ID ` set (Lights (config running_on))"
  "tickerStop running_on = Open"
  by (simp_all add: bus_defs running_on_def both_on_def NewService_def scenario_config_def)

theorem shutdown_is_served_once_witness:
  "take 128 ''shutdown'' = EVENT_TYPE_SHUTDOWN \<and>
   stopChan (NewExternalEventService (Some Open)) = Some Open \<and>
   None \<notin> ID ` set (Lights (config running_on)) \<and>
   tickerStop running_on = Open \<and>
   fst (accept_loop [Connection ''shutdown'', Connection ''shutdown''] 0
          (NewExternalEventService (Some Open)) running_on lit_world)
     = Inr (Returned, (NewExternalEventService (Some Open))\<lparr>listener := Some Closed\<rparr>, switched_off) \<and>
   count_list (trace (snd (accept_loop [Connection ''shutdown'', Connection ''shutdown''] 0
          (NewExternalEventService (Some Open)) running_on lit_world))) Notified = 1 \<and>
   trace (snd (accept_loop [Connection ''shutdown'', Connection ''shutdown''] 0
          (NewExternalEventService (Some Open)) running_on lit_world))
     = [Log Info ''Listening for events on Unix socket: %q'',
        Log Info ''Received shutdown event, stopping light automation service'',
        Log Info ''Stopping Light Automation Service'', TickerStopped, StopClosed,
        Log Info ''It's daytime, lights should remain off'', Sent (TurnOff ''L1''),
        Log Info ''It's daytime, lights should remain off'', Sent (TurnOff ''L2''),
        Notified, ConnClosed, Log Info ''Closing Unix socket listener'',
        ListenerClosed, SocketRemoved] \<and>
   \<not> lamps (snd (accept_loop [Connection ''shutdown'', Connection ''shutdown''] 0
          (NewExternalEventService (Some Open)) running_on lit_world)) ''L1'' \<and>
   \<not> lamps (snd (accept_loop [Connection ''shutdown'', Connection ''shutdown''] 0
          (NewExternalEventService (Some Open)) running_on lit_world)) ''L2''"
proof -
  have o: "ticker running_on = None \<or> tickerStop running_on = Open"
    using handshake_pre(4) by simp
  from shutdown_is_served_once[OF handshake_pre(1,2,3) o, of lit_world 0]
  obtain s2 w' where
    l: "\<forall>rest. accept_loop (Connection ''shutdown'' # rest) 0
          (NewExternalEventService (Some Open)) running_on lit_world =
        (Inr (Returned, (NewExternalEventService (Some Open))\<lparr>listener := Some Closed\<rparr>, s2), w')"
    and c: "count_list (trace w') Notified = Suc (count_list (trace lit_world) Notified)"
    by blast
  from l have "snd (accept_loop [Connection ''shutdown'', Connection ''shutdown''] 0
          (NewExternalEventService (Some Open)) running_on lit_world) = w'"
    by simp
  with c have cnt: "count_list (trace (snd (accept_loop [Connection ''shutdown'', Connection ''shutdown''] 0
          (NewExternalEventService (Some Open)) running_on lit_world))) Notified = 1"
    by (simp add: lit_world_def scenario_world_def)
  show ?thesis
    by (intro conjI handshake_pre handshake_result handshake_trace handshake_lamps cnt)
qed


end
